theory Spec2Isabelle
  imports Main "HOL-Library.Word" "HOL-Library.Signed_Division"
begin

unbundle bit_operations_syntax

section \<open>Proof-of-work difficulty: a model of pow.cpp\<close>

text \<open>
  The three functions of \<^verbatim>\<open>pow.cpp\<close> are \<^verbatim>\<open>GetNextWorkRequired\<close>,
  \<^verbatim>\<open>CalculateNextWorkRequired\<close> and \<^verbatim>\<open>CheckProofOfWork\<close>. They compute on
  \<^verbatim>\<open>arith_uint256\<close> (here \<open>256 word\<close>: addition and multiplication wrap at \<open>2 ^ 256\<close>),
  on the 32-bit compact encoding \<^verbatim>\<open>nBits\<close> (here \<open>32 word\<close>) and on signed 64-bit
  times and timespans. The signed quantities are modelled as \<open>int\<close>; signed overflow is
  undefined in the source, so the model speaks about the executions where it does not
  happen. The division \<^verbatim>\<open>/\<close> and remainder \<^verbatim>\<open>%\<close> of the source truncate towards zero:
  they are \<open>sdiv\<close> and \<open>smod\<close>.
\<close>

subsection \<open>Data\<close>

text \<open>
  Modelled from the spec: the class \<^verbatim>\<open>arith_uint256\<close> (arith_uint256.h), the Target of
  the spec: an unsigned integer of 256 bits. The operators that \<^verbatim>\<open>pow.cpp\<close> applies to it
  (\<^verbatim>\<open>*=\<close>, \<^verbatim>\<open>/=\<close>, \<^verbatim>\<open>>\<close>, \<^verbatim>\<open>==\<close>) are those of \<open>256 word\<close>: the product is
  taken modulo \<open>2 ^ 256\<close>, the quotient is rounded down; the operands of \<^verbatim>\<open>*=\<close> and
  \<^verbatim>\<open>/=\<close> are \<open>multiplier_of_int64\<close> and \<open>arith_of_int64\<close> below. \<^verbatim>\<open>uint256\<close>
  (uint256.h) holds the same 256 bits without arithmetic, and \<^verbatim>\<open>UintToArith256\<close> keeps
  the value.
\<close>

type_synonym arith_uint256 = "256 word"
type_synonym uint256 = "256 word"

text \<open>
  What can go wrong in the source: a failed \<^verbatim>\<open>assert\<close>, and a division or remainder
  whose divisor is zero.
\<close>

datatype error = AssertionFailure | DivisionByZero

text \<open>
  \<^verbatim>\<open>CBlockIndex\<close>: the fields that \<^verbatim>\<open>pow.cpp\<close> reads. The parent pointer \<^verbatim>\<open>pprev\<close> is
  null at the end of the chain.
\<close>

datatype CBlockIndex =
  CBlockIndex (nHeight: int) (nTime: "32 word") (nBits: "32 word") (pprev: "CBlockIndex option")

text \<open>\<^verbatim>\<open>CBlockHeader\<close>: only the timestamp of the candidate block is read.\<close>

record CBlockHeader =
  hdr_nTime :: "32 word"

text \<open>\<^verbatim>\<open>Consensus::Params\<close>: the fields that \<^verbatim>\<open>pow.cpp\<close> reads.\<close>

record Params =
  powLimit :: uint256
  fPowAllowMinDifficultyBlocks :: bool
  fPowNoRetargeting :: bool
  nPowTargetSpacing :: int
  nPowTargetTimespan :: int

subsection \<open>Collaborators of pow.cpp\<close>

text \<open>
  Modelled from the spec: \<^verbatim>\<open>CBlockIndex::GetBlockTime\<close> and
  \<^verbatim>\<open>CBlockHeader::GetBlockTime\<close> (chain.h, primitives/block.h): the unsigned timestamp
  of the block, as a signed 64-bit value.
\<close>

definition GetBlockTime :: "CBlockIndex \<Rightarrow> int" where
  "GetBlockTime b = uint (nTime b)"

definition GetBlockTime_hdr :: "CBlockHeader \<Rightarrow> int" where
  "GetBlockTime_hdr h = uint (hdr_nTime h)"

text \<open>
  Modelled from the spec: \<^verbatim>\<open>Params::DifficultyAdjustmentInterval\<close> (consensus/params.h):
  the retarget interval, derived as \<open>targetTimespan / targetSpacing\<close>.
\<close>

definition DifficultyAdjustmentInterval :: "Params \<Rightarrow> error + int" where
  "DifficultyAdjustmentInterval params =
     (if nPowTargetSpacing params = 0 then Inl DivisionByZero
      else Inr (nPowTargetTimespan params sdiv nPowTargetSpacing params))"

text \<open>
  Modelled from the spec: \<^verbatim>\<open>CBlockIndex::GetAncestor\<close> (chain.cpp): the ancestor at a
  given height, absent only if the height is out of range. The walk follows the parent
  links.
\<close>

fun GetAncestor :: "CBlockIndex \<Rightarrow> int \<Rightarrow> CBlockIndex option" where
  "GetAncestor (CBlockIndex h t b p) height =
     (if height > h \<or> height < 0 then None
      else if h = height then Some (CBlockIndex h t b p)
      else (case p of None \<Rightarrow> None | Some q \<Rightarrow> GetAncestor q height))"

text \<open>
  Modelled from the spec: \<^verbatim>\<open>arith_uint256::SetCompact\<close> (arith_uint256.cpp), the
  decoding of a compact value. \<open>E\<close> is the top byte and the mantissa is made of the low
  three bytes, whose bit \<open>0x00800000\<close> is reserved as the sign flag and is not part of the
  magnitude. For \<open>E \<le> 3\<close> the mantissa is shifted right by \<open>8 * (3 - E)\<close> bits, otherwise
  left by \<open>8 * (E - 3)\<close> bits inside the 256-bit container. \<open>negative\<close> is the sign
  flag; \<open>overflow\<close> holds iff the shift places nonzero mantissa bits beyond the width of
  the container. The magnitude is returned whatever the flags are.
\<close>

record decoded =
  target :: arith_uint256
  negative :: bool
  overflow :: bool

definition SetCompact :: "32 word \<Rightarrow> decoded" where
  "SetCompact nCompact =
     (let nSize = unat (drop_bit 24 nCompact);
          nWord = nCompact AND 0x007fffff
      in \<lparr> target =
             (if nSize \<le> 3 then ucast (drop_bit (8 * (3 - nSize)) nWord)
              else push_bit (8 * (nSize - 3)) (ucast nWord)),
           negative = (nCompact AND 0x00800000 \<noteq> 0),
           overflow = (3 < nSize \<and> 2 ^ 256 \<le> unat nWord * 2 ^ (8 * (nSize - 3))) \<rparr>)"

text \<open>
  Modelled from the spec: the byte length of a target (\<^verbatim>\<open>(bits() + 7) / 8\<close> in
  arith_uint256.cpp): the minimal number of bytes that represent the value, 0 for 0.
\<close>

fun byte_length :: "nat \<Rightarrow> nat" where
  "byte_length n = (if n = 0 then 0 else Suc (byte_length (n div 256)))"

declare byte_length.simps [simp del]

text \<open>
  Modelled from the spec: \<^verbatim>\<open>arith_uint256::GetCompact\<close> (arith_uint256.cpp), the
  encoding of a target. \<open>E\<close> is the byte length of the target, the mantissa its top three
  significant bytes; if the top bit of the mantissa would be set (it would be read as
  the sign flag), the mantissa is shifted right by one byte and \<open>E\<close> is incremented. The
  sign bit is never emitted.
\<close>

definition GetCompact :: "arith_uint256 \<Rightarrow> 32 word" where
  "GetCompact bn =
     (let nSize = byte_length (unat bn);
          nCompact = (if nSize \<le> 3 then push_bit (8 * (3 - nSize)) (ucast bn)
                      else ucast (drop_bit (8 * (nSize - 3)) bn)) :: 32 word;
          shifted = (nCompact AND 0x00800000 \<noteq> 0);
          nCompact' = (if shifted then drop_bit 8 nCompact else nCompact);
          nSize' = (if shifted then nSize + 1 else nSize)
      in nCompact' OR push_bit 24 (word_of_nat nSize'))"

text \<open>
  Modelled from the spec: the conversion of a signed 64-bit value to \<^verbatim>\<open>arith_uint256\<close>
  (the constructor from \<^verbatim>\<open>uint64_t\<close> in arith_uint256.h): the unsigned 64-bit pattern
  of the value, zero-extended. The divisor of \<^verbatim>\<open>/=\<close> is converted this way.
\<close>

definition arith_of_int64 :: "int \<Rightarrow> arith_uint256" where
  "arith_of_int64 x = word_of_int (x mod 2 ^ 64)"

text \<open>
  Modelled from the spec: the operand of \<^verbatim>\<open>arith_uint256::operator*=\<close> (arith_uint256.h).
  The multiplication that the call \<^verbatim>\<open>bnNew *= nActualTimespan\<close> selects takes an unsigned
  32-bit operand (\<^verbatim>\<open>operator*=(uint32_t)\<close>): the signed 64-bit timespan enters the product
  through its low 32 bits. A timespan in \<open>[0, 2 ^ 32)\<close> enters it unchanged.
\<close>

definition multiplier_of_int64 :: "int \<Rightarrow> arith_uint256" where
  "multiplier_of_int64 x = word_of_int (x mod 2 ^ 32)"

subsection \<open>CalculateNextWorkRequired\<close>

text \<open>
  The part under the comment \<^verbatim>\<open>// Limit adjustment step\<close>: the two \<^verbatim>\<open>if\<close>s that clamp
  \<^verbatim>\<open>nActualTimespan\<close>, in the order of the source.
\<close>

definition LimitAdjustmentStep :: "Params \<Rightarrow> int \<Rightarrow> int" where
  "LimitAdjustmentStep params nActualTimespan =
     (let nActualTimespan1 =
            (if nActualTimespan < nPowTargetTimespan params sdiv 4
             then nPowTargetTimespan params sdiv 4 else nActualTimespan)
      in if nActualTimespan1 > nPowTargetTimespan params * 4
         then nPowTargetTimespan params * 4 else nActualTimespan1)"

text \<open>
  The part under the comment \<^verbatim>\<open>// Retarget\<close>, up to the cap:
  \<^verbatim>\<open>bnNew *= nActualTimespan; bnNew /= params.nPowTargetTimespan;\<close> on the 256-bit
  type: the product with the 32-bit operand, then the quotient by the 64-bit divisor.
  The division by a zero divisor raises in the source.
\<close>

definition Retarget :: "Params \<Rightarrow> arith_uint256 \<Rightarrow> int \<Rightarrow> error + arith_uint256" where
  "Retarget params bnOld nActualTimespan =
     (let bnNew = bnOld * multiplier_of_int64 nActualTimespan
      in if arith_of_int64 (nPowTargetTimespan params) = 0 then Inl DivisionByZero
         else Inr (bnNew div arith_of_int64 (nPowTargetTimespan params)))"

text \<open>The cap: \<^verbatim>\<open>if (bnNew > bnPowLimit) bnNew = bnPowLimit;\<close>\<close>

definition CapToLimit :: "Params \<Rightarrow> arith_uint256 \<Rightarrow> arith_uint256" where
  "CapToLimit params bnNew = (if bnNew > powLimit params then powLimit params else bnNew)"

definition CalculateNextWorkRequired :: "CBlockIndex \<Rightarrow> int \<Rightarrow> Params \<Rightarrow> error + 32 word" where
  "CalculateNextWorkRequired pindexLast nFirstBlockTime params =
     (if fPowNoRetargeting params then Inr (nBits pindexLast)
      else
        let nActualTimespan =
              LimitAdjustmentStep params (GetBlockTime pindexLast - nFirstBlockTime)
        in case Retarget params (target (SetCompact (nBits pindexLast))) nActualTimespan of
             Inl e \<Rightarrow> Inl e
           | Inr bnNew \<Rightarrow> Inr (GetCompact (CapToLimit params bnNew)))"

subsection \<open>GetNextWorkRequired\<close>

text \<open>
  The loop of the minimum-difficulty rule:
  \<^verbatim>\<open>while (pindex->pprev && pindex->nHeight % interval != 0 && pindex->nBits == nProofOfWorkLimit)
    pindex = pindex->pprev;\<close>
  It returns the block at which the loop stops.
\<close>

fun LastNonSpecial :: "int \<Rightarrow> 32 word \<Rightarrow> CBlockIndex \<Rightarrow> CBlockIndex" where
  "LastNonSpecial interval nProofOfWorkLimit (CBlockIndex h t b None) = CBlockIndex h t b None"
| "LastNonSpecial interval nProofOfWorkLimit (CBlockIndex h t b (Some q)) =
     (if h smod interval \<noteq> 0 \<and> b = nProofOfWorkLimit
      then LastNonSpecial interval nProofOfWorkLimit q
      else CBlockIndex h t b (Some q))"

definition GetNextWorkRequired :: "CBlockIndex \<Rightarrow> CBlockHeader \<Rightarrow> Params \<Rightarrow> error + 32 word" where
  "GetNextWorkRequired pindexLast pblock params =
     (let nProofOfWorkLimit = GetCompact (powLimit params)
      in case DifficultyAdjustmentInterval params of
           Inl e \<Rightarrow> Inl e
         | Inr interval \<Rightarrow>
             if interval = 0 then Inl DivisionByZero
             else if (nHeight pindexLast + 1) smod interval \<noteq> 0 then
               (if fPowAllowMinDifficultyBlocks params then
                  (if GetBlockTime_hdr pblock
                        > GetBlockTime pindexLast + nPowTargetSpacing params * 2
                   then Inr nProofOfWorkLimit
                   else Inr (nBits (LastNonSpecial interval nProofOfWorkLimit pindexLast)))
                else Inr (nBits pindexLast))
             else
               (let nHeightFirst = nHeight pindexLast - (interval - 1)
                in if nHeightFirst < 0 then Inl AssertionFailure
                   else (case GetAncestor pindexLast nHeightFirst of
                           None \<Rightarrow> Inl AssertionFailure
                         | Some pindexFirst \<Rightarrow>
                             CalculateNextWorkRequired pindexLast
                               (GetBlockTime pindexFirst) params)))"

subsection \<open>CheckProofOfWork\<close>

definition CheckProofOfWork :: "uint256 \<Rightarrow> 32 word \<Rightarrow> Params \<Rightarrow> bool" where
  "CheckProofOfWork hash nBitsClaimed params =
     (let d = SetCompact nBitsClaimed;
          fNegative = negative d;
          fOverflow = overflow d;
          bnTarget = target d
      in if fNegative \<or> bnTarget = 0 \<or> fOverflow \<or> bnTarget > powLimit params then False
         else if hash > bnTarget then False
         else True)"

subsection \<open>Vocabulary of the statements\<close>

text \<open>
  The chain seen from a block: the block itself, its parent, and so on up to the block
  without parent.
\<close>

fun chain :: "CBlockIndex \<Rightarrow> CBlockIndex list" where
  "chain (CBlockIndex h t b None) = [CBlockIndex h t b None]"
| "chain (CBlockIndex h t b (Some q)) = CBlockIndex h t b (Some q) # chain q"

text \<open>
  A block that the minimum-difficulty walk steps over: it is not at a retarget boundary
  and it carries the minimum-difficulty target.
\<close>

definition special :: "int \<Rightarrow> 32 word \<Rightarrow> CBlockIndex \<Rightarrow> bool" where
  "special interval nProofOfWorkLimit a =
     (nHeight a smod interval \<noteq> 0 \<and> nBits a = nProofOfWorkLimit)"

text \<open>
  The compact encoding in arithmetic: the size field of the encoding of \<open>v\<close> is the
  number of bytes of \<open>v\<close> with room for the sign bit, and its mantissa holds the top
  bytes of \<open>v\<close> at that size.
\<close>

definition compact_size :: "nat \<Rightarrow> nat" where
  "compact_size v = byte_length (2 * v)"

definition compact_mantissa :: "nat \<Rightarrow> nat" where
  "compact_mantissa v =
     (if compact_size v \<le> 3 then v * 256 ^ (3 - compact_size v)
      else v div 256 ^ (compact_size v - 3))"

text \<open>
  The three-byte window that the encoding reads at the byte length of \<open>v\<close>, before
  the sign bit is looked at.
\<close>

definition window :: "nat \<Rightarrow> nat" where
  "window v = (if byte_length v \<le> 3 then v * 256 ^ (3 - byte_length v)
               else v div 256 ^ (byte_length v - 3))"

text \<open>
  What decoding gives back from the encoding of \<open>v\<close>: \<open>v\<close> with the bytes below its
  mantissa cleared.
\<close>

definition requantized :: "nat \<Rightarrow> nat" where
  "requantized v = v div 256 ^ (compact_size v - 3) * 256 ^ (compact_size v - 3)"

subsection \<open>Concrete inputs\<close>

text \<open>
  A network with the proof-of-work limit of the main network, a block every 600 seconds
  and a retarget every 4 blocks, which allows minimum-difficulty blocks; and a chain of
  four blocks on it, from the genesis block at height 0 to a tip at height 3.
\<close>

definition net4 :: Params where
  "net4 = \<lparr> powLimit = 0x00000000ffffffffffffffffffffffffffffffffffffffffffffffffffffffff,
            fPowAllowMinDifficultyBlocks = True,
            fPowNoRetargeting = False,
            nPowTargetSpacing = 600,
            nPowTargetTimespan = 2400 \<rparr>"

definition block0 :: CBlockIndex where
  "block0 = CBlockIndex 0 0 0x1d00ffff None"

definition block1 :: CBlockIndex where
  "block1 = CBlockIndex 1 600 0x1c00ffff (Some block0)"

definition block2 :: CBlockIndex where
  "block2 = CBlockIndex 2 1200 0x1d00ffff (Some block1)"

definition block3 :: CBlockIndex where
  "block3 = CBlockIndex 3 1800 0x1d00ffff (Some block2)"

text \<open>
  Two blocks that carry the minimum-difficulty target of \<open>net4\<close>, the older one without
  parent at height 1: a chain on which no block stops the minimum-difficulty walk by
  its height or its bits.
\<close>

definition lone1 :: CBlockIndex where
  "lone1 = CBlockIndex 1 600 0x1d00ffff None"

definition lone2 :: CBlockIndex where
  "lone2 = CBlockIndex 2 1200 0x1d00ffff (Some lone1)"

text \<open>
  A block on \<open>net4\<close> at height 3 whose target is 1, the hardest legal target, and one
  whose target is above the limit of \<open>net4\<close>.
\<close>

definition hard3 :: CBlockIndex where
  "hard3 = CBlockIndex 3 1800 0x01010000 (Some block2)"

definition loose3 :: CBlockIndex where
  "loose3 = CBlockIndex 3 1800 0x1e00ffff (Some block2)"

text \<open>
  A network with a proof-of-work limit just below \<open>2 ^ 255\<close>, a block every 600 seconds
  and a retarget every 2016 blocks, with retargeting enabled; and a block on it at the
  end of a retarget interval that carries the encoded limit.
\<close>

definition widenet :: Params where
  "widenet = \<lparr> powLimit = 0x7fffffffffffffffffffffffffffffffffffffffffffffffffffffffffffffff,
               fPowAllowMinDifficultyBlocks = False,
               fPowNoRetargeting = False,
               nPowTargetSpacing = 600,
               nPowTargetTimespan = 1209600 \<rparr>"

definition wide_tip :: CBlockIndex where
  "wide_tip = CBlockIndex 2015 1209600 0x207fffff None"

text \<open>
  A network whose target timespan is \<open>2 ^ 34\<close> seconds: a quarter of it no longer fits in
  32 bits.
\<close>

definition slownet :: Params where
  "slownet = \<lparr> powLimit = 0x00000000ffffffffffffffffffffffffffffffffffffffffffffffffffffffff,
               fPowAllowMinDifficultyBlocks = False,
               fPowNoRetargeting = False,
               nPowTargetSpacing = 600,
               nPowTargetTimespan = 17179869184 \<rparr>"

section \<open>Properties\<close>

subsection \<open>Helper lemmas\<close>

lemma special_CBlockIndex:
  "special interval lim (CBlockIndex h t b p) = (h smod interval \<noteq> 0 \<and> b = lim)"
  by (simp add: special_def)

lemma chain_nonempty: "chain b \<noteq> []"
  by (induction b rule: chain.induct) simp_all

lemma pprev_last_chain: "pprev (last (chain b)) = None"
  by (induction b rule: chain.induct) (simp_all add: chain_nonempty)

text \<open>
  The walk splits the chain: the blocks it steps over are all special, and it stops at a
  block without parent (then the last of the chain) or at a block that is not special.
\<close>

lemma LastNonSpecial_split:
  "\<exists>pre post. chain b = pre @ LastNonSpecial interval lim b # post
     \<and> list_all (special interval lim) pre
     \<and> (pprev (LastNonSpecial interval lim b) = None \<and> post = []
        \<or> \<not> special interval lim (LastNonSpecial interval lim b))"
proof (induction interval lim b rule: LastNonSpecial.induct)
  case (1 interval lim h t b)
  show ?case by (rule exI [of _ "[]"]) simp
next
  case (2 interval lim h t b q)
  show ?case
  proof (cases "h smod interval \<noteq> 0 \<and> b = lim")
    case True
    with 2 obtain pre post where
      s: "chain q = pre @ LastNonSpecial interval lim q # post"
         "list_all (special interval lim) pre"
         "pprev (LastNonSpecial interval lim q) = None \<and> post = []
          \<or> \<not> special interval lim (LastNonSpecial interval lim q)"
      by blast
    show ?thesis
      apply (rule exI [of _ "CBlockIndex h t b (Some q) # pre"])
      apply (rule exI [of _ post])
      using True s by (simp add: special_CBlockIndex)
  next
    case False
    show ?thesis
      apply (rule exI [of _ "[]"])
      using False by (auto simp add: special_CBlockIndex)
  qed
qed

text \<open>A chain that ends in a block at height 0 holds a block that is not special.\<close>

lemma genesis_not_special:
  "nHeight (last (chain b)) = 0 \<Longrightarrow> \<not> list_all (special interval lim) (chain b)"
proof
  assume h: "nHeight (last (chain b)) = 0"
    and a: "list_all (special interval lim) (chain b)"
  have "last (chain b) \<in> set (chain b)" using chain_nonempty by (rule last_in_set)
  with a have "special interval lim (last (chain b))" by (simp add: list_all_iff)
  with h show False by (simp add: special_def)
qed

lemma LastNonSpecial_all_special:
  "list_all (special interval lim) (chain b) \<Longrightarrow> LastNonSpecial interval lim b = last (chain b)"
  by (induction interval lim b rule: LastNonSpecial.induct)
     (simp_all add: special_CBlockIndex chain_nonempty)

lemma LastNonSpecial_in_chain: "LastNonSpecial interval lim b \<in> set (chain b)"
  by (induction interval lim b rule: LastNonSpecial.induct) simp_all

lemma LastNonSpecial_no_parent: "pprev b = None \<Longrightarrow> LastNonSpecial interval lim b = b"
  by (cases b) simp

lemma GetNextWorkRequired_off_boundary_min:
  assumes "DifficultyAdjustmentInterval params = Inr interval" "interval \<noteq> 0"
    "(nHeight pindexLast + 1) smod interval \<noteq> 0"
    "fPowAllowMinDifficultyBlocks params"
    "\<not> GetBlockTime_hdr pblock > GetBlockTime pindexLast + nPowTargetSpacing params * 2"
  shows "GetNextWorkRequired pindexLast pblock params =
     Inr (nBits (LastNonSpecial interval (GetCompact (powLimit params)) pindexLast))"
  using assms by (simp add: GetNextWorkRequired_def)

subsection \<open>The byte length\<close>

lemma byte_length_0: "byte_length 0 = 0"
  by (simp add: byte_length.simps)

lemma byte_length_pos: "v \<noteq> 0 \<Longrightarrow> byte_length v = Suc (byte_length (v div 256))"
  by (subst byte_length.simps) simp

lemma byte_length_less: "v < 256 ^ byte_length v"
proof (induction v rule: byte_length.induct)
  case (1 n)
  show ?case
  proof (cases "n = 0")
    case True
    then show ?thesis by (simp add: byte_length_0)
  next
    case False
    with 1 have "n div 256 < 256 ^ byte_length (n div 256)" by simp
    then have "n < 256 * 256 ^ byte_length (n div 256)" by linarith
    with False show ?thesis by (simp add: byte_length_pos)
  qed
qed

lemma byte_length_le_iff: "byte_length v \<le> n \<longleftrightarrow> v < 256 ^ n"
proof (induction v arbitrary: n rule: byte_length.induct)
  case (1 v)
  show ?case
  proof (cases "v = 0")
    case True
    then show ?thesis by (simp add: byte_length_0)
  next
    case False
    show ?thesis
    proof (cases n)
      case 0
      with False show ?thesis by (simp add: byte_length_pos)
    next
      case (Suc k)
      have "byte_length (v div 256) \<le> k \<longleftrightarrow> v div 256 < 256 ^ k"
        using 1 False by simp
      moreover have "v div 256 < 256 ^ k \<longleftrightarrow> v < 256 * 256 ^ k"
        by (simp add: less_mult_imp_div_less div_less_iff_less_mult mult.commute)
      ultimately show ?thesis using False Suc by (simp add: byte_length_pos)
    qed
  qed
qed

lemma byte_length_mono: "v \<le> w \<Longrightarrow> byte_length v \<le> byte_length w"
  using byte_length_less [of w] by (simp add: byte_length_le_iff)

lemma byte_length_ge: "v \<noteq> 0 \<Longrightarrow> 256 ^ (byte_length v - 1) \<le> v"
proof -
  assume "v \<noteq> 0"
  then have p: "0 < byte_length v" by (simp add: byte_length_pos)
  have "\<not> byte_length v \<le> byte_length v - 1" using p by simp
  then show ?thesis by (simp add: byte_length_le_iff)
qed

subsection \<open>The fields of a compact value\<close>

lemma mask23: "(0x007fffff :: 32 word) = mask 23"
  by (simp add: mask_eq_exp_minus_1)

lemma compact_size_field:
  fixes a e :: "32 word"
  assumes "a < 2 ^ 24" "e < 2 ^ 8"
  shows "drop_bit 24 (a OR push_bit 24 e) = e"
proof -
  have a: "take_bit 24 a = a" using assms(1) by (simp add: take_bit_eq_mask less_mask_eq)
  have e: "take_bit 8 e = e" using assms(2) by (simp add: take_bit_eq_mask less_mask_eq)
  have "drop_bit 24 (take_bit 24 a OR push_bit 24 (take_bit 8 e)) = take_bit 8 e"
    by (rule bit_word_eqI) (auto simp add: bit_simps)
  then show ?thesis by (simp only: a e)
qed

lemma compact_mantissa_field:
  fixes a e :: "32 word"
  assumes "a < 2 ^ 23"
  shows "(a OR push_bit 24 e) AND 0x007fffff = a"
proof -
  have a: "take_bit 23 a = a" using assms(1) by (simp add: take_bit_eq_mask less_mask_eq)
  have "(take_bit 23 a OR push_bit 24 e) AND mask 23 = take_bit 23 a"
    by (rule bit_word_eqI) (auto simp add: bit_simps)
  then show ?thesis by (simp only: a mask23)
qed

lemma compact_sign_field:
  fixes a e :: "32 word"
  assumes "a < 2 ^ 23"
  shows "(a OR push_bit 24 e) AND 0x00800000 = 0"
proof -
  have a: "take_bit 23 a = a" using assms(1) by (simp add: take_bit_eq_mask less_mask_eq)
  have "\<not> bit (take_bit 23 a OR push_bit 24 e) 23"
    by (simp add: bit_simps)
  then have "\<not> bit (a OR push_bit 24 e) 23" by (metis a)
  then have "(a OR push_bit 24 e) AND 2 ^ 23 = 0"
    using and_exp_eq_0_iff_not_bit [of "a OR push_bit 24 e" 23] by blast
  then show ?thesis by simp
qed

lemma sign_bit_test:
  fixes w :: "32 word"
  assumes "unat w < 2 ^ 24"
  shows "(w AND 0x00800000 \<noteq> 0) = (2 ^ 23 \<le> unat w)"
proof -
  have s: "(0x00800000 :: 32 word) = 2 ^ 23" by simp
  have "(w AND 2 ^ 23 \<noteq> 0) = bit w 23"
    using and_exp_eq_0_iff_not_bit [of w 23] by blast
  also have "\<dots> = bit (unat w) 23"
    by (simp add: bit_unsigned_iff)
  also have "\<dots> = odd (unat w div 2 ^ 23)"
    by (simp only: bit_iff_odd)
  also have "\<dots> = (2 ^ 23 \<le> unat w)"
  proof -
    have "unat w div 2 ^ 23 < 2" using assms by (simp add: less_mult_imp_div_less)
    moreover have "(2 ^ 23 \<le> unat w) = (0 < unat w div 2 ^ 23)"
      by (simp add: div_greater_zero_iff)
    ultimately show ?thesis by (cases "unat w div 2 ^ 23 = 0") auto
  qed
  finally show ?thesis by (simp only: s)
qed

subsection \<open>The encoding in arithmetic\<close>

lemma byte_length_eq_0: "byte_length v = 0 \<longleftrightarrow> v = 0"
  using byte_length_le_iff [of v 0] by simp

lemma window_small:
  assumes "byte_length v \<le> 3"
  shows "window v < 2 ^ 24"
    and "(2 ^ 23 \<le> window v) = (256 ^ byte_length v \<le> 2 * v)"
    and "256 ^ byte_length v \<le> 2 * v \<Longrightarrow>
           window v div 256 =
             (if byte_length v + 1 \<le> 3 then v * 256 ^ (3 - (byte_length v + 1))
              else v div 256 ^ (byte_length v + 1 - 3))"
proof -
  have v: "v < 256 ^ byte_length v" by (rule byte_length_less)
  from assms consider "byte_length v = 0" | "byte_length v = 1" | "byte_length v = 2"
    | "byte_length v = 3" by arith
  note c = this
  from c show "window v < 2 ^ 24"
    using v by cases (simp_all add: window_def)
  from c show "(2 ^ 23 \<le> window v) = (256 ^ byte_length v \<le> 2 * v)"
    using v by cases (auto simp add: window_def)
  assume "256 ^ byte_length v \<le> 2 * v"
  with c show "window v div 256 =
             (if byte_length v + 1 \<le> 3 then v * 256 ^ (3 - (byte_length v + 1))
              else v div 256 ^ (byte_length v + 1 - 3))"
    using v by cases (simp_all add: window_def)
qed

lemma window_large:
  assumes "\<not> byte_length v \<le> 3"
  shows "window v < 2 ^ 24"
    and "(2 ^ 23 \<le> window v) = (256 ^ byte_length v \<le> 2 * v)"
    and "window v div 256 = v div 256 ^ (byte_length v + 1 - 3)"
proof -
  from assms obtain k where k: "byte_length v = k + 4"
    by (metis add.commute le_Suc_ex not_less_eq_eq numeral_Bit0 numeral_Bit1 numeral_One
          Suc_eq_plus1 add_Suc_right nat_le_linear one_add_one)
  have w: "window v = v div (256 * 256 ^ k)" using k by (simp add: window_def)
  have "v < 256 ^ (k + 4)" using byte_length_less [of v] k by simp
  then have "v < 16777216 * (256 * 256 ^ k)" by (simp add: power_add)
  then have "v div (256 * 256 ^ k) < 16777216"
    by (simp add: less_mult_imp_div_less)
  with w show "window v < 2 ^ 24" by simp
  have "(2 ^ 23 \<le> v div (256 * 256 ^ k)) = (2 ^ 23 * (256 * 256 ^ k) \<le> v)"
    by (simp add: less_eq_div_iff_mult_less_eq)
  also have "\<dots> = (256 ^ (k + 4) \<le> 2 * v)"
    by (simp add: power_add)
  finally show "(2 ^ 23 \<le> window v) = (256 ^ byte_length v \<le> 2 * v)"
    using k w by simp
  have e: "256 ^ (k + 2) = (256 * 256 ^ k) * (256::nat)" by (simp add: power_add)
  have "v div (256 * 256 ^ k) div 256 = v div 256 ^ (k + 2)"
    unfolding e by (rule div_mult2_eq [symmetric])
  with k w show "window v div 256 = v div 256 ^ (byte_length v + 1 - 3)" by simp
qed

lemma window_less: "window v < 2 ^ 24"
  using window_small(1) window_large(1) by blast

lemma window_sign: "(2 ^ 23 \<le> window v) = (256 ^ byte_length v \<le> 2 * v)"
  using window_small(2) window_large(2) by blast

lemma compact_size_eq:
  "compact_size v = (if 256 ^ byte_length v \<le> 2 * v then byte_length v + 1 else byte_length v)"
proof -
  have lo: "byte_length v \<le> compact_size v"
    unfolding compact_size_def by (rule byte_length_mono) simp
  have "v < 256 ^ byte_length v" by (rule byte_length_less)
  then have "2 * v < 256 ^ (byte_length v + 1)" by simp
  then have hi: "compact_size v \<le> byte_length v + 1"
    unfolding compact_size_def by (simp only: byte_length_le_iff)
  have "(compact_size v \<le> byte_length v) = (2 * v < 256 ^ byte_length v)"
    unfolding compact_size_def by (simp only: byte_length_le_iff)
  with lo hi show ?thesis by auto
qed

lemma compact_mantissa_eq:
  "compact_mantissa v = (if 256 ^ byte_length v \<le> 2 * v then window v div 256 else window v)"
proof (cases "256 ^ byte_length v \<le> 2 * v")
  case False
  then show ?thesis by (simp add: compact_mantissa_def compact_size_eq window_def)
next
  case True
  then have s: "compact_size v = byte_length v + 1" by (simp add: compact_size_eq)
  show ?thesis
  proof (cases "byte_length v \<le> 3")
    case small: True
    show ?thesis
      using window_small(3) [OF small True] True
      by (simp only: compact_mantissa_def s if_True)
  next
    case large: False
    then have "\<not> byte_length v + 1 \<le> 3" by simp
    then show ?thesis
      using window_large(3) [OF large] True
      by (simp only: compact_mantissa_def s if_True if_False)
  qed
qed

lemma compact_mantissa_less: "compact_mantissa v < 2 ^ 23"
proof (cases "256 ^ byte_length v \<le> 2 * v")
  case True
  have "window v div 256 < 2 ^ 23"
    using window_less [of v] by simp
  with True show ?thesis by (simp add: compact_mantissa_eq)
next
  case False
  then have "\<not> 2 ^ 23 \<le> window v" using window_sign [of v] by blast
  with False show ?thesis by (simp add: compact_mantissa_eq)
qed

lemma p256: "(2::nat) ^ (8 * k) = 256 ^ k"
  by (simp add: power_mult)

lemma unat_256_less: "unat (bn :: 256 word) < 256 ^ 32"
  using unsigned_less [of bn, where 'a = nat] by simp

lemma byte_length_word: "byte_length (unat (bn :: 256 word)) \<le> 32"
  unfolding byte_length_le_iff by (rule unat_256_less)

lemma unat_push_bit_ucast:
  fixes bn :: "256 word"
  assumes "unat bn * 2 ^ k < 2 ^ 32"
  shows "unat (push_bit k (ucast bn :: 32 word)) = unat bn * 2 ^ k"
proof -
  have "unat bn \<le> unat bn * 2 ^ k" by simp
  then have a: "unat bn < 2 ^ 32" using assms by (rule le_less_trans)
  show ?thesis
    apply (subst unsigned_push_bit_eq)
    apply (subst unsigned_ucast_eq)
    using a assms by (simp add: push_bit_eq_mult take_bit_nat_eq_self)
qed

lemma unat_ucast_drop_bit:
  fixes bn :: "256 word"
  assumes "unat bn div 2 ^ k < 2 ^ 32"
  shows "unat (ucast (drop_bit k bn) :: 32 word) = unat bn div 2 ^ k"
  apply (subst unsigned_ucast_eq)
  apply (subst unat_drop_bit_eq)
  using assms by (simp add: drop_bit_eq_div take_bit_nat_eq_self)

lemma unat_drop_bit_8:
  fixes w :: "32 word"
  shows "unat (drop_bit 8 w) = unat w div 256"
  apply (subst unat_drop_bit_eq)
  by (simp add: drop_bit_eq_div)

lemma unat_window:
  fixes bn :: "256 word"
  defines "n \<equiv> byte_length (unat bn)"
  shows "unat (if n \<le> 3 then push_bit (8 * (3 - n)) (ucast bn)
               else ucast (drop_bit (8 * (n - 3)) bn) :: 32 word) = window (unat bn)"
proof (cases "n \<le> 3")
  case True
  have v: "unat bn < 256 ^ n" unfolding n_def by (rule byte_length_less)
  have "unat bn * 256 ^ (3 - n) < 256 ^ n * 256 ^ (3 - n)"
    using v by simp
  also have "\<dots> = 256 ^ 3" using True by (simp flip: power_add)
  finally have "unat bn * 2 ^ (8 * (3 - n)) < 2 ^ 32" by (simp add: p256)
  then have "unat (push_bit (8 * (3 - n)) (ucast bn :: 32 word)) = unat bn * 2 ^ (8 * (3 - n))"
    by (rule unat_push_bit_ucast)
  with True show ?thesis by (simp add: window_def n_def p256)
next
  case False
  have "window (unat bn) < 2 ^ 24" by (rule window_less)
  then have "unat bn div 2 ^ (8 * (n - 3)) < 2 ^ 32"
    using False by (simp add: window_def n_def p256)
  then have "unat (ucast (drop_bit (8 * (n - 3)) bn) :: 32 word) = unat bn div 2 ^ (8 * (n - 3))"
    by (rule unat_ucast_drop_bit)
  with False show ?thesis by (simp add: window_def n_def p256)
qed

lemma GetCompact_fields:
  "GetCompact bn = word_of_nat (compact_mantissa (unat bn))
                     OR push_bit 24 (word_of_nat (compact_size (unat bn)))"
proof -
  let ?v = "unat bn"
  let ?n = "byte_length ?v"
  let ?w = "(if ?n \<le> 3 then push_bit (8 * (3 - ?n)) (ucast bn)
             else ucast (drop_bit (8 * (?n - 3)) bn)) :: 32 word"
  have w: "unat ?w = window ?v" by (rule unat_window)
  then have "unat ?w < 2 ^ 24" by (simp only: window_less)
  then have s: "(?w AND 0x00800000 \<noteq> 0) = (256 ^ ?n \<le> 2 * ?v)"
    by (simp only: sign_bit_test w window_sign)
  have w': "?w = word_of_nat (window ?v)"
    by (simp flip: w)
  show ?thesis
  proof (cases "256 ^ ?n \<le> 2 * ?v")
    case True
    have "unat (drop_bit 8 ?w) = window ?v div 256"
      by (simp only: unat_drop_bit_8 w)
    then have "drop_bit 8 ?w = word_of_nat (window ?v div 256)"
      by (metis of_nat_unat ucast_id)
    with True s show ?thesis
      by (simp add: GetCompact_def Let_def compact_mantissa_eq compact_size_eq)
  next
    case False
    with s w' show ?thesis
      by (simp add: GetCompact_def Let_def compact_mantissa_eq compact_size_eq)
  qed
qed

subsection \<open>Decoding an encoded target\<close>

lemma compact_size_le: "compact_size (unat (bn :: 256 word)) \<le> 33"
  using byte_length_word [of bn] by (simp add: compact_size_eq)

lemma unat_of_nat32: "n < 2 ^ 32 \<Longrightarrow> unat (word_of_nat n :: 32 word) = n"
  by (simp add: unat_of_nat take_bit_nat_eq_self)

lemma SetCompact_fields:
  fixes m E :: nat
  assumes "m < 2 ^ 23" and "E < 256"
  defines "c \<equiv> (word_of_nat m OR push_bit 24 (word_of_nat E)) :: 32 word"
  shows "unat (target (SetCompact c)) =
           (if E \<le> 3 then m div 256 ^ (3 - E) else (m * 256 ^ (E - 3)) mod 2 ^ 256)"
    and "negative (SetCompact c) = False"
    and "overflow (SetCompact c) = (3 < E \<and> 2 ^ 256 \<le> m * 256 ^ (E - 3))"
proof -
  let ?a = "word_of_nat m :: 32 word" and ?e = "word_of_nat E :: 32 word"
  have ua: "unat ?a = m" using assms(1) by (simp add: unat_of_nat32)
  have ue: "unat ?e = E" using assms(2) by (simp add: unat_of_nat32)
  have a23: "?a < 2 ^ 23" using assms(1) by (simp add: word_less_nat_alt ua)
  then have a24: "?a < 2 ^ 24" by (simp add: word_less_nat_alt)
  have e8: "?e < 2 ^ 8" using assms(2) by (simp add: word_less_nat_alt ue)
  have size: "unat (drop_bit 24 c) = E"
    unfolding c_def by (simp only: compact_size_field [OF a24 e8] ue)
  have mant: "c AND 0x007fffff = ?a"
    unfolding c_def using a23 by (rule compact_mantissa_field)
  have sign: "c AND 0x00800000 = 0"
    unfolding c_def using a23 by (rule compact_sign_field)
  show "negative (SetCompact c) = False"
    by (simp add: SetCompact_def Let_def sign)
  show "overflow (SetCompact c) = (3 < E \<and> 2 ^ 256 \<le> m * 256 ^ (E - 3))"
    by (simp add: SetCompact_def Let_def size mant ua p256)
  show "unat (target (SetCompact c)) =
           (if E \<le> 3 then m div 256 ^ (3 - E) else (m * 256 ^ (E - 3)) mod 2 ^ 256)"
  proof (cases "E \<le> 3")
    case True
    have "unat (ucast (drop_bit (8 * (3 - E)) ?a) :: 256 word)
            = take_bit LENGTH(256) (unat (drop_bit (8 * (3 - E)) ?a))"
      by (rule unsigned_ucast_eq)
    also have "\<dots> = unat (drop_bit (8 * (3 - E)) ?a)"
      by (rule take_bit_nat_eq_self) (use unsigned_less [of "drop_bit (8 * (3 - E)) ?a", where 'a = nat] in simp)
    also have "\<dots> = drop_bit (8 * (3 - E)) m"
      by (simp only: unat_drop_bit_eq ua)
    also have "\<dots> = m div 256 ^ (3 - E)"
      by (simp add: drop_bit_eq_div p256)
    finally show ?thesis using True
      by (simp add: SetCompact_def Let_def size mant)
  next
    case False
    have "unat (ucast ?a :: 256 word) = take_bit LENGTH(256) (unat ?a)"
      by (rule unsigned_ucast_eq)
    also have "\<dots> = m"
      unfolding ua by (rule take_bit_nat_eq_self) (use assms(1) in simp)
    finally have u: "unat (ucast ?a :: 256 word) = m" .
    have "unat (push_bit (8 * (E - 3)) (ucast ?a :: 256 word))
            = take_bit LENGTH(256) (push_bit (8 * (E - 3)) (unat (ucast ?a :: 256 word)))"
      by (rule unsigned_push_bit_eq)
    also have "\<dots> = (m * 256 ^ (E - 3)) mod 2 ^ 256"
      unfolding u by (simp add: take_bit_eq_mod push_bit_eq_mult p256)
    finally show ?thesis using False
      by (simp add: SetCompact_def Let_def size mant)
  qed
qed

lemma compact_mantissa_scaled:
  "(if compact_size v \<le> 3 then compact_mantissa v div 256 ^ (3 - compact_size v)
    else compact_mantissa v * 256 ^ (compact_size v - 3)) = requantized v"
  by (simp add: compact_mantissa_def requantized_def)

lemma requantized_le: "requantized v \<le> v"
  unfolding requantized_def by (rule div_times_less_eq_dividend)

lemma SetCompact_GetCompact:
  fixes bn :: "256 word"
  shows "unat (target (SetCompact (GetCompact bn))) = requantized (unat bn)"
    and "negative (SetCompact (GetCompact bn)) = False"
    and "overflow (SetCompact (GetCompact bn)) = False"
proof -
  let ?v = "unat bn"
  have m: "compact_mantissa ?v < 2 ^ 23" by (rule compact_mantissa_less)
  have e: "compact_size ?v < 256" using compact_size_le [of bn] by simp
  have r: "requantized ?v < 2 ^ 256"
    using requantized_le [of ?v] unat_256_less [of bn] by simp
  have big: "\<not> compact_size ?v \<le> 3 \<Longrightarrow>
      compact_mantissa ?v * 256 ^ (compact_size ?v - 3) = requantized ?v"
    using compact_mantissa_scaled [of ?v] by simp
  show "negative (SetCompact (GetCompact bn)) = False"
    unfolding GetCompact_fields using m e by (rule SetCompact_fields(2))
  show "overflow (SetCompact (GetCompact bn)) = False"
    unfolding GetCompact_fields SetCompact_fields(3) [OF m e]
    using big r by (cases "compact_size ?v \<le> 3") simp_all
  show "unat (target (SetCompact (GetCompact bn))) = requantized ?v"
    unfolding GetCompact_fields SetCompact_fields(1) [OF m e]
    using compact_mantissa_scaled [of ?v] big r by (cases "compact_size ?v \<le> 3") simp_all
qed

lemma requantized_small: "compact_size v \<le> 3 \<Longrightarrow> requantized v = v"
  by (simp add: requantized_def)

lemma compact_size_bounds:
  "2 * v < 256 ^ compact_size v"
  "v \<noteq> 0 \<Longrightarrow> 256 ^ (compact_size v - 1) \<le> 2 * v"
  unfolding compact_size_def
  using byte_length_less [of "2 * v"] byte_length_ge [of "2 * v"] by simp_all

lemma compact_size_le_iff: "compact_size v \<le> n \<longleftrightarrow> 2 * v < 256 ^ n"
  by (simp add: compact_size_def byte_length_le_iff)

lemma requantized_top:
  assumes "\<not> compact_size v \<le> 3"
  shows "256 ^ (compact_size v - 1) \<le> 2 * requantized v"
proof -
  from assms obtain k where k: "compact_size v = k + 3"
    by (metis add.commute le_Suc_ex nat_le_linear)
  have "v \<noteq> 0"
  proof
    assume "v = 0"
    then have "compact_size v = 0" by (simp add: compact_size_def byte_length_0)
    with assms show False by simp
  qed
  then have "256 ^ (k + 2) \<le> 2 * v" using compact_size_bounds(2) [of v] k by simp
  then have "32768 * 256 ^ k \<le> v" by (simp add: power_add)
  then have "32768 \<le> v div 256 ^ k"
    by (simp add: less_eq_div_iff_mult_less_eq)
  then have "32768 * 256 ^ k \<le> v div 256 ^ k * 256 ^ k" by simp
  then have "256 ^ (k + 2) \<le> 2 * (v div 256 ^ k * 256 ^ k)" by (simp add: power_add)
  with k show ?thesis by (simp add: requantized_def)
qed

lemma requantized_pos: "v \<noteq> 0 \<Longrightarrow> requantized v \<noteq> 0"
proof (cases "compact_size v \<le> 3")
  case True
  assume "v \<noteq> 0"
  with True show ?thesis by (simp add: requantized_small)
next
  case False
  have "0 < (256::nat) ^ (compact_size v - 1)" by simp
  also have "\<dots> \<le> 2 * requantized v" using False by (rule requantized_top)
  finally show ?thesis by simp
qed

lemma compact_size_requantized: "compact_size (requantized v) = compact_size v"
proof (cases "compact_size v \<le> 3")
  case True
  then show ?thesis by (simp add: requantized_small)
next
  case False
  have "2 * requantized v \<le> 2 * v" using requantized_le [of v] by simp
  also have "\<dots> < 256 ^ compact_size v" by (rule compact_size_bounds)
  finally have "compact_size (requantized v) \<le> compact_size v"
    by (simp add: compact_size_le_iff)
  moreover have "\<not> 2 * requantized v < 256 ^ (compact_size v - 1)"
    using requantized_top [OF False] by simp
  then have "\<not> compact_size (requantized v) \<le> compact_size v - 1"
    by (simp add: compact_size_le_iff)
  ultimately show ?thesis by simp
qed

lemma compact_mantissa_requantized: "compact_mantissa (requantized v) = compact_mantissa v"
proof (cases "compact_size v \<le> 3")
  case True
  then show ?thesis by (simp add: requantized_small)
next
  case False
  have "requantized v div 256 ^ (compact_size v - 3) = v div 256 ^ (compact_size v - 3)"
    by (simp add: requantized_def)
  with False show ?thesis
    by (simp add: compact_mantissa_def compact_size_requantized)
qed

lemma compact_size_mono: "v \<le> w \<Longrightarrow> compact_size v \<le> compact_size w"
  unfolding compact_size_def by (rule byte_length_mono) simp

lemma requantized_mono:
  assumes "v \<le> w"
  shows "requantized v \<le> requantized w"
proof (cases "compact_size v = compact_size w")
  case True
  have "v div 256 ^ (compact_size w - 3) \<le> w div 256 ^ (compact_size w - 3)"
    using assms by (rule div_le_mono)
  then show ?thesis by (simp add: requantized_def True)
next
  case False
  with assms compact_size_mono [of v w] have lt: "compact_size v < compact_size w" by simp
  show ?thesis
  proof (cases "compact_size w \<le> 3")
    case True
    then have "requantized w = w" by (rule requantized_small)
    with assms requantized_le [of v] show ?thesis by simp
  next
    case False
    have "2 * v < 256 ^ compact_size v" by (rule compact_size_bounds)
    also have "\<dots> \<le> 256 ^ (compact_size w - 1)"
      by (rule power_increasing) (use lt in simp_all)
    also have "\<dots> \<le> 2 * requantized w" using False by (rule requantized_top)
    finally have "v \<le> requantized w" by simp
    with requantized_le [of v] show ?thesis by simp
  qed
qed

lemma GetCompact_idempotent:
  "GetCompact (target (SetCompact (GetCompact bn))) = GetCompact bn"
proof -
  let ?t = "target (SetCompact (GetCompact bn))"
  have u: "unat ?t = requantized (unat bn)" by (rule SetCompact_GetCompact(1))
  have "GetCompact ?t = word_of_nat (compact_mantissa (requantized (unat bn)))
                          OR push_bit 24 (word_of_nat (compact_size (requantized (unat bn))))"
    using GetCompact_fields [of ?t] by (simp only: u)
  also have "\<dots> = GetCompact bn"
    by (simp only: compact_size_requantized compact_mantissa_requantized
          GetCompact_fields [of bn])
  finally show ?thesis .
qed

subsection \<open>The retarget arithmetic\<close>

lemma unat_arith_of_int64:
  assumes "0 \<le> x" and "x < 2 ^ 64"
  shows "unat (arith_of_int64 x) = nat x"
proof -
  have "x mod 2 ^ 64 = x" using assms by simp
  then have "arith_of_int64 x = word_of_nat (nat x)"
    using assms(1) by (simp add: arith_of_int64_def)
  moreover have "nat x < 2 ^ 256"
  proof -
    have "x < 2 ^ 256" using assms(2) by (rule less_trans) simp
    then show ?thesis using assms(1) by (simp add: nat_less_iff)
  qed
  ultimately show ?thesis by (simp add: unat_of_nat take_bit_nat_eq_self)
qed

lemma unat_multiplier_of_int64:
  assumes "0 \<le> x" and "x < 2 ^ 32"
  shows "unat (multiplier_of_int64 x) = nat x"
proof -
  have "x mod 2 ^ 32 = x" using assms by simp
  then have "multiplier_of_int64 x = word_of_nat (nat x)"
    using assms(1) by (simp add: multiplier_of_int64_def)
  moreover have "nat x < 2 ^ 256"
  proof -
    have "x < 2 ^ 256" using assms(2) by (rule less_trans) simp
    then show ?thesis using assms(1) by (simp add: nat_less_iff)
  qed
  ultimately show ?thesis by (simp add: unat_of_nat take_bit_nat_eq_self)
qed

lemma arith_of_int64_nonzero:
  assumes "0 < x" and "x < 2 ^ 64"
  shows "arith_of_int64 x \<noteq> 0"
proof
  assume "arith_of_int64 x = 0"
  then have "unat (arith_of_int64 x) = 0" by simp
  moreover have "unat (arith_of_int64 x) = nat x"
    using assms by (simp add: unat_arith_of_int64)
  ultimately show False using assms(1) by simp
qed

text \<open>With a positive divisor the retarget arithmetic returns a value.\<close>

lemma Retarget_returns:
  assumes "0 < nPowTargetTimespan params" and "nPowTargetTimespan params < 2 ^ 64"
  shows "Retarget params old ts
           = Inr (old * multiplier_of_int64 ts div arith_of_int64 (nPowTargetTimespan params))"
  using arith_of_int64_nonzero [OF assms] by (simp add: Retarget_def Let_def)

text \<open>With a multiplier that fits in 32 bits the value is the wrapped product's quotient.\<close>

lemma Retarget_unat:
  assumes "0 < nPowTargetTimespan params" and "nPowTargetTimespan params < 2 ^ 64"
    and "0 \<le> ts" and "ts < 2 ^ 32"
  shows "\<exists>bnNew. Retarget params old ts = Inr bnNew
           \<and> unat bnNew = unat old * nat ts mod 2 ^ 256 div nat (nPowTargetTimespan params)"
proof -
  let ?T = "nPowTargetTimespan params"
  have uT: "unat (arith_of_int64 ?T) = nat ?T"
    using assms(1,2) by (simp add: unat_arith_of_int64)
  have uts: "unat (multiplier_of_int64 ts) = nat ts"
    using assms(3,4) by (rule unat_multiplier_of_int64)
  have "unat (old * multiplier_of_int64 ts div arith_of_int64 ?T)
          = unat old * nat ts mod 2 ^ 256 div nat ?T"
    by (simp add: unat_div unat_word_ariths uT uts)
  then show ?thesis by (simp add: Retarget_returns [OF assms(1,2)])
qed

lemma LimitAdjustmentStep_range:
  assumes "0 < nPowTargetTimespan params" and "nPowTargetTimespan params * 4 < 2 ^ 63"
  shows "0 \<le> LimitAdjustmentStep params x"
    and "LimitAdjustmentStep params x < 2 ^ 64"
    and "LimitAdjustmentStep params x \<le> nPowTargetTimespan params * 4"
    and "nPowTargetTimespan params sdiv 4 \<le> LimitAdjustmentStep params x"
proof -
  let ?T = "nPowTargetTimespan params"
  have q: "?T sdiv 4 = ?T div 4"
    using assms(1) by (simp add: signed_divide_int_def)
  have le: "0 \<le> ?T div 4" "?T div 4 \<le> ?T * 4"
    using assms(1) by simp_all
  show "0 \<le> LimitAdjustmentStep params x"
    using le assms(1) by (simp add: LimitAdjustmentStep_def Let_def q)
  show "LimitAdjustmentStep params x \<le> ?T * 4"
    using le by (simp add: LimitAdjustmentStep_def Let_def q)
  then show "LimitAdjustmentStep params x < 2 ^ 64"
    using assms(2) by simp
  show "?T sdiv 4 \<le> LimitAdjustmentStep params x"
    using le by (simp add: LimitAdjustmentStep_def Let_def q)
qed



lemma CapToLimit_le: "CapToLimit params bnNew \<le> powLimit params"
  by (simp add: CapToLimit_def not_less)

lemma CapToLimit_mono: "a \<le> b \<Longrightarrow> CapToLimit params a \<le> CapToLimit params b"
  by (auto simp add: CapToLimit_def not_less)

subsection \<open>Evaluations on the concrete inputs\<close>

lemma net4_interval: "DifficultyAdjustmentInterval net4 = Inr 4"
  by (simp add: DifficultyAdjustmentInterval_def net4_def signed_divide_int_def)

lemma net4_limit: "GetCompact (powLimit net4) = 0x1d00ffff"
  by (simp add: net4_def GetCompact_def Let_def byte_length.simps)

lemma GetAncestor_block3: "GetAncestor block3 0 = Some block0"
  by (simp add: block3_def block2_def block1_def block0_def)

lemma SetCompact_limit:
  "target (SetCompact 0x1d00ffff) = 0x00000000ffff0000000000000000000000000000000000000000000000000000"
  by (simp add: SetCompact_def Let_def)

lemma Retarget_net4_1800:
  "Retarget net4 0x00000000ffff0000000000000000000000000000000000000000000000000000 1800
     = Inr 0x00000000bfff4000000000000000000000000000000000000000000000000000"
  by (simp add: Retarget_def arith_of_int64_def multiplier_of_int64_def net4_def Let_def)

lemma GetCompact_bfff4:
  "GetCompact 0x00000000bfff4000000000000000000000000000000000000000000000000000 = 0x1d00bfff"
  by (simp add: GetCompact_def Let_def byte_length.simps)

lemma Calculate_block3:
  "CalculateNextWorkRequired block3 0 net4 = Inr 0x1d00bfff"
proof -
  have n: "nBits block3 = 0x1d00ffff" "GetBlockTime block3 = 1800"
    by (simp_all add: block3_def GetBlockTime_def)
  have l: "LimitAdjustmentStep net4 1800 = 1800"
    by (simp add: LimitAdjustmentStep_def net4_def signed_divide_int_def)
  have c: "CapToLimit net4 0x00000000bfff4000000000000000000000000000000000000000000000000000
     = 0x00000000bfff4000000000000000000000000000000000000000000000000000"
    by (simp add: CapToLimit_def net4_def)
  have f: "\<not> fPowNoRetargeting net4" by (simp add: net4_def)
  show ?thesis
    unfolding CalculateNextWorkRequired_def
    by (simp only: n f l SetCompact_limit Retarget_net4_1800 c GetCompact_bfff4 Let_def
          if_False diff_zero sum.case)
qed

lemma GetNextWorkRequired_block3:
  "GetNextWorkRequired block3 pblock net4 = Inr 0x1d00bfff"
proof -
  have h: "nHeight block3 = 3" "GetBlockTime block0 = 0"
    by (simp_all add: block3_def block0_def GetBlockTime_def)
  show ?thesis
    by (simp add: GetNextWorkRequired_def net4_interval h GetAncestor_block3 Calculate_block3
          signed_modulo_int_def)
qed

subsection \<open>The claims\<close>


text \<open>
  C1. \<^verbatim>\<open>CheckProofOfWork\<close> returns false if and only if the decoded encoding is negative,
  or overflows, or the decoded target is zero, or it is greater than \<open>powLimit\<close>, or the
  hash is strictly greater than the target; in every other case (in particular when the
  hash equals a legal target or is below it) it returns true.
\<close>

theorem CheckProofOfWork_rejects_iff:
  "(CheckProofOfWork hash nBitsClaimed params = False) =
     (negative (SetCompact nBitsClaimed) \<or> overflow (SetCompact nBitsClaimed)
      \<or> target (SetCompact nBitsClaimed) = 0
      \<or> target (SetCompact nBitsClaimed) > powLimit params
      \<or> hash > target (SetCompact nBitsClaimed))"
  by (auto simp add: CheckProofOfWork_def Let_def)

text \<open>
  C2. With a retarget interval that is defined and not zero, \<^verbatim>\<open>GetNextWorkRequired\<close>
  goes to the retarget computation exactly when \<open>(height + 1) % interval = 0\<close>: there its
  result is the result of \<^verbatim>\<open>CalculateNextWorkRequired\<close> on the tip and the time of the
  first block of the interval (or the failure of one of the two assertions before the
  call). At every other height the result is the bits of the tip unchanged, unless
  minimum-difficulty blocks are allowed; then it is the encoded limit or the bits of the
  block where the minimum-difficulty walk stops.
\<close>

theorem GetNextWorkRequired_retarget_at_boundary_only:
  assumes "DifficultyAdjustmentInterval params = Inr interval" and "interval \<noteq> 0"
  shows "(if (nHeight pindexLast + 1) smod interval = 0
          then GetNextWorkRequired pindexLast pblock params =
                 (if nHeight pindexLast - (interval - 1) < 0 then Inl AssertionFailure
                  else case GetAncestor pindexLast (nHeight pindexLast - (interval - 1)) of
                         None \<Rightarrow> Inl AssertionFailure
                       | Some pindexFirst \<Rightarrow>
                           CalculateNextWorkRequired pindexLast (GetBlockTime pindexFirst) params)
          else if fPowAllowMinDifficultyBlocks params
          then GetNextWorkRequired pindexLast pblock params = Inr (GetCompact (powLimit params))
             \<or> GetNextWorkRequired pindexLast pblock params =
                 Inr (nBits (LastNonSpecial interval (GetCompact (powLimit params)) pindexLast))
          else GetNextWorkRequired pindexLast pblock params = Inr (nBits pindexLast))"
  using assms by (simp add: GetNextWorkRequired_def Let_def)

theorem GetNextWorkRequired_retarget_at_boundary_only_witness:
  "GetNextWorkRequired block3 \<lparr>hdr_nTime = 2400\<rparr> net4
     = CalculateNextWorkRequired block3 (GetBlockTime block0) net4
   \<and> GetNextWorkRequired block2 \<lparr>hdr_nTime = 1800\<rparr> (net4\<lparr>fPowAllowMinDifficultyBlocks := False\<rparr>)
     = Inr (nBits block2)"
proof -
  have i: "DifficultyAdjustmentInterval (net4\<lparr>fPowAllowMinDifficultyBlocks := False\<rparr>) = Inr 4"
    by (simp add: DifficultyAdjustmentInterval_def net4_def signed_divide_int_def)
  show ?thesis
    using GetNextWorkRequired_retarget_at_boundary_only
            [OF net4_interval, of block3 "\<lparr>hdr_nTime = 2400\<rparr>"]
          GetNextWorkRequired_retarget_at_boundary_only
            [OF i, of block2 "\<lparr>hdr_nTime = 1800\<rparr>"]
          GetAncestor_block3
    by (simp add: block3_def block2_def signed_modulo_int_def)
qed

text \<open>
  C3, as stated: whenever minimum-difficulty blocks are allowed and the candidate's
  timestamp exceeds the tip's by more than twice the target spacing, the result is the
  encoded limit, whatever the height. It fails at a retarget boundary: on \<open>net4\<close> the
  candidate after \<open>block3\<close> has height 4, the timestamp gap is 1201 > 1200 seconds, and the
  result is the retargeted \<open>0x1d00bfff\<close>, not the encoded limit \<open>0x1d00ffff\<close>.
\<close>

theorem min_difficulty_any_height_counterexample:
  "fPowAllowMinDifficultyBlocks net4
   \<and> GetBlockTime_hdr \<lparr>hdr_nTime = 3001\<rparr> > GetBlockTime block3 + nPowTargetSpacing net4 * 2
   \<and> GetNextWorkRequired block3 \<lparr>hdr_nTime = 3001\<rparr> net4 = Inr 0x1d00bfff
   \<and> Inr (GetCompact (powLimit net4)) = (Inr 0x1d00ffff :: error + 32 word)
   \<and> GetNextWorkRequired block3 \<lparr>hdr_nTime = 3001\<rparr> net4 \<noteq> Inr (GetCompact (powLimit net4))"
proof -
  have "fPowAllowMinDifficultyBlocks net4" by (simp add: net4_def)
  moreover have "GetBlockTime_hdr \<lparr>hdr_nTime = 3001\<rparr>
       > GetBlockTime block3 + nPowTargetSpacing net4 * 2"
    by (simp add: GetBlockTime_hdr_def GetBlockTime_def block3_def net4_def)
  ultimately show ?thesis
    by (simp add: GetNextWorkRequired_block3 net4_limit)
qed

text \<open>
  C3, amended: when minimum-difficulty blocks are allowed, the candidate's height is not
  a retarget boundary (\<open>(height + 1) % interval \<noteq> 0\<close> for the tip's height) and the
  candidate's timestamp exceeds the tip's by more than twice the target spacing, the
  result is the encoded limit.
\<close>

theorem min_difficulty_off_boundary:
  assumes "DifficultyAdjustmentInterval params = Inr interval" and "interval \<noteq> 0"
    and "(nHeight pindexLast + 1) smod interval \<noteq> 0"
    and "fPowAllowMinDifficultyBlocks params"
    and "GetBlockTime_hdr pblock > GetBlockTime pindexLast + nPowTargetSpacing params * 2"
  shows "GetNextWorkRequired pindexLast pblock params = Inr (GetCompact (powLimit params))"
  using assms by (simp add: GetNextWorkRequired_def Let_def)

theorem min_difficulty_off_boundary_witness:
  "GetNextWorkRequired block2 \<lparr>hdr_nTime = 2401\<rparr> net4 = Inr 0x1d00ffff"
proof -
  have "GetNextWorkRequired block2 \<lparr>hdr_nTime = 2401\<rparr> net4 = Inr (GetCompact (powLimit net4))"
  proof (rule min_difficulty_off_boundary [OF net4_interval])
    show "(4::int) \<noteq> 0" by simp
    show "(nHeight block2 + 1) smod 4 \<noteq> 0"
      by (simp add: block2_def signed_modulo_int_def)
    show "fPowAllowMinDifficultyBlocks net4" by (simp add: net4_def)
    show "GetBlockTime_hdr \<lparr>hdr_nTime = 2401\<rparr>
            > GetBlockTime block2 + nPowTargetSpacing net4 * 2"
      by (simp add: GetBlockTime_hdr_def GetBlockTime_def block2_def net4_def)
  qed
  then show ?thesis by (simp add: net4_limit)
qed

text \<open>
  C4. Off the retarget boundary, with minimum-difficulty blocks allowed and no timestamp
  gap, on a chain that holds a block that is a retarget boundary or does not carry the
  minimum-difficulty target (any chain that ends in a genesis block at height 0 holds
  one): the walk steps from the tip backward over blocks that all
  satisfy \<open>height % interval \<noteq> 0\<close> and \<open>bits = encode(powLimit)\<close>, and the result is the bits
  of the first block of the chain that is a retarget boundary or does not carry the
  minimum-difficulty target.
\<close>

theorem min_difficulty_walk_first_non_special:
  assumes "DifficultyAdjustmentInterval params = Inr interval" and "interval \<noteq> 0"
    and "(nHeight pindexLast + 1) smod interval \<noteq> 0"
    and "fPowAllowMinDifficultyBlocks params"
    and "\<not> GetBlockTime_hdr pblock > GetBlockTime pindexLast + nPowTargetSpacing params * 2"
    and "\<not> list_all (special interval (GetCompact (powLimit params))) (chain pindexLast)"
  shows "\<exists>pre b post. chain pindexLast = pre @ b # post
           \<and> list_all (special interval (GetCompact (powLimit params))) pre
           \<and> (nHeight b smod interval = 0 \<or> nBits b \<noteq> GetCompact (powLimit params))
           \<and> GetNextWorkRequired pindexLast pblock params = Inr (nBits b)"
proof -
  let ?lim = "GetCompact (powLimit params)"
  let ?b = "LastNonSpecial interval ?lim pindexLast"
  obtain pre post where
    s: "chain pindexLast = pre @ ?b # post" "list_all (special interval ?lim) pre"
       "pprev ?b = None \<and> post = [] \<or> \<not> special interval ?lim ?b"
    using LastNonSpecial_split [of pindexLast interval ?lim] by blast
  have "\<not> special interval ?lim ?b"
  proof
    assume sp: "special interval ?lim ?b"
    with s(3) have "post = []" by blast
    with s(1,2) sp have "list_all (special interval ?lim) (chain pindexLast)" by simp
    with assms(6) show False by contradiction
  qed
  then have "nHeight ?b smod interval = 0 \<or> nBits ?b \<noteq> ?lim"
    by (auto simp add: special_def)
  moreover have "GetNextWorkRequired pindexLast pblock params = Inr (nBits ?b)"
    using assms(1-5) by (rule GetNextWorkRequired_off_boundary_min)
  ultimately show ?thesis using s(1,2) by blast
qed

theorem min_difficulty_walk_first_non_special_witness:
  "\<exists>pre b post. chain block2 = pre @ b # post
           \<and> list_all (special 4 (GetCompact (powLimit net4))) pre
           \<and> (nHeight b smod 4 = 0 \<or> nBits b \<noteq> GetCompact (powLimit net4))
           \<and> GetNextWorkRequired block2 \<lparr>hdr_nTime = 1800\<rparr> net4 = Inr (nBits b)"
proof (rule min_difficulty_walk_first_non_special [OF net4_interval])
  show "(4::int) \<noteq> 0" by simp
  show "(nHeight block2 + 1) smod 4 \<noteq> 0"
    by (simp add: block2_def signed_modulo_int_def)
  show "fPowAllowMinDifficultyBlocks net4" by (simp add: net4_def)
  show "\<not> GetBlockTime_hdr \<lparr>hdr_nTime = 1800\<rparr>
            > GetBlockTime block2 + nPowTargetSpacing net4 * 2"
    by (simp add: GetBlockTime_hdr_def GetBlockTime_def block2_def net4_def)
  show "\<not> list_all (special 4 (GetCompact (powLimit net4))) (chain block2)"
    by (simp add: net4_limit block2_def block1_def block0_def special_CBlockIndex)
qed

text \<open>
  C10. The walk never leaves the chain of the tip, and a block without parent stops it.
  On the path off the retarget boundary, with minimum-difficulty blocks allowed and no
  timestamp gap, the result is the bits of a block of the chain: the walk has stepped
  over special blocks only and has stopped at a block that has no parent or is not
  special. When every block of the chain is special, the walk stops at the block without
  parent, the last of the chain, and the result is the bits of that block.
\<close>

theorem min_difficulty_walk_stops_without_parent:
  assumes "DifficultyAdjustmentInterval params = Inr interval" and "interval \<noteq> 0"
    and "(nHeight pindexLast + 1) smod interval \<noteq> 0"
    and "fPowAllowMinDifficultyBlocks params"
    and "\<not> GetBlockTime_hdr pblock > GetBlockTime pindexLast + nPowTargetSpacing params * 2"
  shows "(\<exists>pre b post. chain pindexLast = pre @ b # post
            \<and> list_all (special interval (GetCompact (powLimit params))) pre
            \<and> (pprev b = None \<and> post = [] \<or> \<not> special interval (GetCompact (powLimit params)) b)
            \<and> GetNextWorkRequired pindexLast pblock params = Inr (nBits b))
       \<and> (pprev pindexLast = None \<longrightarrow>
            GetNextWorkRequired pindexLast pblock params = Inr (nBits pindexLast))
       \<and> (list_all (special interval (GetCompact (powLimit params))) (chain pindexLast) \<longrightarrow>
            pprev (last (chain pindexLast)) = None
            \<and> GetNextWorkRequired pindexLast pblock params = Inr (nBits (last (chain pindexLast))))"
proof -
  let ?lim = "GetCompact (powLimit params)"
  have g: "GetNextWorkRequired pindexLast pblock params
             = Inr (nBits (LastNonSpecial interval ?lim pindexLast))"
    using assms by (rule GetNextWorkRequired_off_boundary_min)
  have "\<exists>pre b post. chain pindexLast = pre @ b # post
            \<and> list_all (special interval ?lim) pre
            \<and> (pprev b = None \<and> post = [] \<or> \<not> special interval ?lim b)
            \<and> GetNextWorkRequired pindexLast pblock params = Inr (nBits b)"
    using LastNonSpecial_split [of pindexLast interval ?lim] g by metis
  moreover have "pprev pindexLast = None \<longrightarrow>
            GetNextWorkRequired pindexLast pblock params = Inr (nBits pindexLast)"
    using g by (simp add: LastNonSpecial_no_parent)
  moreover have "list_all (special interval ?lim) (chain pindexLast) \<longrightarrow>
            pprev (last (chain pindexLast)) = None
            \<and> GetNextWorkRequired pindexLast pblock params = Inr (nBits (last (chain pindexLast)))"
    using g by (simp add: LastNonSpecial_all_special pprev_last_chain)
  ultimately show ?thesis by blast
qed

theorem min_difficulty_walk_stops_without_parent_witness:
  "list_all (special 4 (GetCompact (powLimit net4))) (chain lone2)
   \<and> last (chain lone2) = lone1 \<and> pprev lone1 = None
   \<and> GetNextWorkRequired lone2 \<lparr>hdr_nTime = 1800\<rparr> net4 = Inr (nBits lone1)"
proof -
  have a: "list_all (special 4 (GetCompact (powLimit net4))) (chain lone2)"
    by (simp add: net4_limit lone2_def lone1_def special_CBlockIndex signed_modulo_int_def)
  have l: "last (chain lone2) = lone1" "pprev lone1 = None"
    by (simp_all add: lone2_def lone1_def)
  have "list_all (special 4 (GetCompact (powLimit net4))) (chain lone2) \<longrightarrow>
            pprev (last (chain lone2)) = None
            \<and> GetNextWorkRequired lone2 \<lparr>hdr_nTime = 1800\<rparr> net4 = Inr (nBits (last (chain lone2)))"
  proof (rule min_difficulty_walk_stops_without_parent
           [OF net4_interval, THEN conjunct2, THEN conjunct2])
    show "(4::int) \<noteq> 0" by simp
    show "(nHeight lone2 + 1) smod 4 \<noteq> 0"
      by (simp add: lone2_def signed_modulo_int_def)
    show "fPowAllowMinDifficultyBlocks net4" by (simp add: net4_def)
    show "\<not> GetBlockTime_hdr \<lparr>hdr_nTime = 1800\<rparr>
            > GetBlockTime lone2 + nPowTargetSpacing net4 * 2"
      by (simp add: GetBlockTime_hdr_def GetBlockTime_def lone2_def net4_def)
  qed
  with a l show ?thesis by simp
qed

text \<open>
  C5, as stated: whatever the actual timespan, the timespan value that the retarget
  multiplication uses lies between \<open>targetTimespan / 4\<close> and \<open>targetTimespan * 4\<close>. It
  fails where the clamped value does not fit the 32-bit operand of the multiplication:
  on \<open>slownet\<close> the target timespan is \<open>2 ^ 34\<close>, the timespan 1800 of \<open>block3\<close> is clamped to
  the lower bound \<open>2 ^ 32\<close>, and the multiplication takes its low 32 bits, which are 0:
  the new target is 0.
\<close>

theorem timespan_clamped_counterexample:
  "nPowTargetTimespan slownet sdiv 4 = 4294967296
   \<and> LimitAdjustmentStep slownet (GetBlockTime block3 - 0) = 4294967296
   \<and> uint (multiplier_of_int64 (LimitAdjustmentStep slownet (GetBlockTime block3 - 0))) = 0
   \<and> Retarget slownet (target (SetCompact (nBits block3)))
         (LimitAdjustmentStep slownet (GetBlockTime block3 - 0)) = Inr 0
   \<and> CalculateNextWorkRequired block3 0 slownet = Inr 0"
proof -
  have q: "nPowTargetTimespan slownet sdiv 4 = 4294967296"
    by (simp add: slownet_def signed_divide_int_def)
  have l: "LimitAdjustmentStep slownet (GetBlockTime block3 - 0) = 4294967296"
    by (simp add: LimitAdjustmentStep_def slownet_def block3_def GetBlockTime_def
          signed_divide_int_def)
  have m: "multiplier_of_int64 4294967296 = 0"
    by (simp add: multiplier_of_int64_def)
  have n: "nBits block3 = 0x1d00ffff" "\<not> fPowNoRetargeting slownet"
    by (simp_all add: block3_def slownet_def)
  have r: "Retarget slownet
             0x00000000ffff0000000000000000000000000000000000000000000000000000 4294967296
           = Inr 0"
    by (simp add: Retarget_def m arith_of_int64_def slownet_def Let_def)
  have c: "CapToLimit slownet 0 = 0" by (simp add: CapToLimit_def slownet_def)
  have g: "GetCompact 0 = 0" by (simp add: GetCompact_def Let_def byte_length.simps)
  have d: "CalculateNextWorkRequired block3 0 slownet = Inr 0"
    unfolding CalculateNextWorkRequired_def
    by (simp only: n l SetCompact_limit r c g Let_def if_False sum.case)
  show ?thesis unfolding l n SetCompact_limit using q m r d by simp
qed

text \<open>
  C5, amended: with retargeting enabled and a positive target timespan whose fourfold is
  below \<open>2 ^ 32\<close>, whatever the actual timespan (the time of the last block minus the
  given time of the first block, possibly negative), the timespan that
  \<^verbatim>\<open>CalculateNextWorkRequired\<close> multiplies by lies between \<open>targetTimespan / 4\<close> and
  \<open>targetTimespan * 4\<close>: a value below the lower bound is replaced by the lower bound, a
  value above the upper bound by the upper bound, a value in between is kept, and the
  operand of the 256-bit multiplication has that value.
\<close>

theorem timespan_clamped:
  assumes "\<not> fPowNoRetargeting params"
    and "0 < nPowTargetTimespan params" and "nPowTargetTimespan params * 4 < 2 ^ 32"
  shows "\<exists>used.
           used = (if GetBlockTime pindexLast - nFirstBlockTime < nPowTargetTimespan params sdiv 4
                   then nPowTargetTimespan params sdiv 4
                   else if GetBlockTime pindexLast - nFirstBlockTime > nPowTargetTimespan params * 4
                   then nPowTargetTimespan params * 4
                   else GetBlockTime pindexLast - nFirstBlockTime)
           \<and> nPowTargetTimespan params sdiv 4 \<le> used
           \<and> used \<le> nPowTargetTimespan params * 4
           \<and> uint (multiplier_of_int64 used) = used
           \<and> CalculateNextWorkRequired pindexLast nFirstBlockTime params =
               Inr (GetCompact (CapToLimit params
                 (target (SetCompact (nBits pindexLast)) * multiplier_of_int64 used
                    div arith_of_int64 (nPowTargetTimespan params))))"
proof -
  let ?T = "nPowTargetTimespan params"
  let ?x = "GetBlockTime pindexLast - nFirstBlockTime"
  let ?used = "LimitAdjustmentStep params ?x"
  have w: "?T * 4 < 2 ^ 63" using assms(3) by simp
  have r: "0 \<le> ?used" "?used \<le> ?T * 4" "?T sdiv 4 \<le> ?used"
    using LimitAdjustmentStep_range [OF assms(2) w, of ?x] by simp_all
  then have lt: "?used < 2 ^ 32" using assms(3) by simp
  have e: "?used = (if ?x < ?T sdiv 4 then ?T sdiv 4
                    else if ?x > ?T * 4 then ?T * 4 else ?x)"
    using r(2,3) by (auto simp add: LimitAdjustmentStep_def Let_def)
  have "unat (multiplier_of_int64 ?used) = nat ?used"
    using r(1) lt by (rule unat_multiplier_of_int64)
  then have "int (unat (multiplier_of_int64 ?used)) = ?used" using r(1) by simp
  then have u: "uint (multiplier_of_int64 ?used) = ?used" by simp
  have T: "?T < 2 ^ 64" using assms(2,3) by simp
  have c: "CalculateNextWorkRequired pindexLast nFirstBlockTime params =
             Inr (GetCompact (CapToLimit params
               (target (SetCompact (nBits pindexLast)) * multiplier_of_int64 ?used
                  div arith_of_int64 ?T)))"
    using assms(1) by (simp add: CalculateNextWorkRequired_def Let_def
          Retarget_returns [OF assms(2) T])
  from e r(2,3) u c show ?thesis by blast
qed

theorem timespan_clamped_witness:
  "\<exists>used. used = 600 \<and> uint (multiplier_of_int64 used) = 600
     \<and> CalculateNextWorkRequired block3 5000 net4 =
         Inr (GetCompact (CapToLimit net4
           (target (SetCompact (nBits block3)) * multiplier_of_int64 used
              div arith_of_int64 (nPowTargetTimespan net4))))"
proof -
  have a: "\<not> fPowNoRetargeting net4" "0 < nPowTargetTimespan net4"
    "nPowTargetTimespan net4 * 4 < 2 ^ 32"
    by (simp_all add: net4_def)
  have b: "GetBlockTime block3 - 5000 < nPowTargetTimespan net4 sdiv 4"
          "nPowTargetTimespan net4 sdiv 4 = 600"
    by (simp_all add: GetBlockTime_def block3_def net4_def signed_divide_int_def)
  show ?thesis
    using timespan_clamped [OF a, of block3 5000] b by auto
qed

text \<open>
  C6, as stated: the new target is \<open>old * actualTimespan / targetTimespan\<close> in exact
  arithmetic, the multiplication losing no high-order bits for any representable previous
  target. It fails where the product does not fit in 256 bits: on \<open>widenet\<close>, for the
  previous target \<open>0x7fffff * 2 ^ 232\<close> of the bits \<open>0x207fffff\<close> and an actual timespan equal
  to the target timespan, the exact quotient is the previous target itself, and the code
  computes a target below \<open>2 ^ 240\<close>.
\<close>

theorem retarget_exact_counterexample:
  "LimitAdjustmentStep widenet (GetBlockTime wide_tip - 0) = 1209600
   \<and> target (SetCompact (nBits wide_tip))
       = 0x7fffff0000000000000000000000000000000000000000000000000000000000
   \<and> Retarget widenet (target (SetCompact (nBits wide_tip))) 1209600
       = Inr 0x0000cdebbc99a778556334111eefccdaab889667445223000ddebbc99a77855
   \<and> unat (target (SetCompact (nBits wide_tip))) * 1209600 div 1209600
       \<noteq> unat (0x0000cdebbc99a778556334111eefccdaab889667445223000ddebbc99a77855 :: 256 word)"
proof -
  have a: "LimitAdjustmentStep widenet (GetBlockTime wide_tip - 0) = 1209600"
    by (simp add: LimitAdjustmentStep_def widenet_def wide_tip_def GetBlockTime_def
          signed_divide_int_def)
  have b: "target (SetCompact (nBits wide_tip))
       = 0x7fffff0000000000000000000000000000000000000000000000000000000000"
    by (simp add: wide_tip_def SetCompact_def Let_def)
  have c: "Retarget widenet 0x7fffff0000000000000000000000000000000000000000000000000000000000 1209600
       = Inr 0x0000cdebbc99a778556334111eefccdaab889667445223000ddebbc99a77855"
    by (simp add: Retarget_def arith_of_int64_def multiplier_of_int64_def widenet_def Let_def)
  show ?thesis using a c unfolding b by simp
qed

text \<open>
  C6, amended: with retargeting enabled and a positive target timespan whose fourfold
  is below \<open>2 ^ 32\<close> (the clamped timespan is then a 32-bit value), the new target is the
  256-bit product of the previous target and the clamped timespan (the product taken
  modulo \<open>2 ^ 256\<close>), divided by the target timespan, multiplying before dividing. It is
  the exact quotient \<open>old * actualTimespan / targetTimespan\<close> whenever the product is
  below \<open>2 ^ 256\<close>, in particular whenever the previous target is at most \<open>powLimit\<close> and
  \<open>powLimit * targetTimespan * 4\<close> is below \<open>2 ^ 256\<close>.
\<close>

theorem retarget_exact_without_overflow:
  assumes "\<not> fPowNoRetargeting params"
    and "0 < nPowTargetTimespan params" and "nPowTargetTimespan params * 4 < 2 ^ 32"
  shows "\<exists>bnNew.
           CalculateNextWorkRequired pindexLast nFirstBlockTime params
             = Inr (GetCompact (CapToLimit params bnNew))
         \<and> unat bnNew =
             unat (target (SetCompact (nBits pindexLast)))
               * nat (LimitAdjustmentStep params (GetBlockTime pindexLast - nFirstBlockTime))
               mod 2 ^ 256 div nat (nPowTargetTimespan params)
         \<and> (unat (target (SetCompact (nBits pindexLast)))
               * nat (LimitAdjustmentStep params (GetBlockTime pindexLast - nFirstBlockTime))
               < 2 ^ 256 \<longrightarrow>
             unat bnNew =
               unat (target (SetCompact (nBits pindexLast)))
                 * nat (LimitAdjustmentStep params (GetBlockTime pindexLast - nFirstBlockTime))
                 div nat (nPowTargetTimespan params))
         \<and> (target (SetCompact (nBits pindexLast)) \<le> powLimit params
              \<and> unat (powLimit params) * nat (nPowTargetTimespan params * 4) < 2 ^ 256 \<longrightarrow>
             unat bnNew =
               unat (target (SetCompact (nBits pindexLast)))
                 * nat (LimitAdjustmentStep params (GetBlockTime pindexLast - nFirstBlockTime))
                 div nat (nPowTargetTimespan params))"
proof -
  let ?T = "nPowTargetTimespan params"
  let ?ts = "LimitAdjustmentStep params (GetBlockTime pindexLast - nFirstBlockTime)"
  let ?old = "target (SetCompact (nBits pindexLast))"
  have w: "?T * 4 < 2 ^ 63" using assms(3) by simp
  have r0: "0 \<le> ?ts" "?ts \<le> ?T * 4"
    using LimitAdjustmentStep_range [OF assms(2) w] by simp_all
  then have r: "0 \<le> ?ts" "?ts < 2 ^ 32" "?ts \<le> ?T * 4"
    using assms(3) by simp_all
  have "?T < 2 ^ 64" using assms(2,3) by simp
  with Retarget_unat [OF assms(2) _ r(1,2)] obtain bnNew where
    b: "Retarget params ?old ?ts = Inr bnNew"
       "unat bnNew = unat ?old * nat ?ts mod 2 ^ 256 div nat ?T"
    by blast
  have c: "CalculateNextWorkRequired pindexLast nFirstBlockTime params
             = Inr (GetCompact (CapToLimit params bnNew))"
    using assms(1) b(1) by (simp add: CalculateNextWorkRequired_def Let_def)
  have e: "unat ?old * nat ?ts < 2 ^ 256 \<longrightarrow>
             unat bnNew = unat ?old * nat ?ts div nat ?T"
    using b(2) by simp
  have "unat ?old * nat ?ts < 2 ^ 256"
    if "?old \<le> powLimit params" "unat (powLimit params) * nat (?T * 4) < 2 ^ 256"
  proof -
    have "unat ?old \<le> unat (powLimit params)" using that(1) by (simp add: word_le_nat_alt)
    moreover have "nat ?ts \<le> nat (?T * 4)" using r(3) by simp
    ultimately have "unat ?old * nat ?ts \<le> unat (powLimit params) * nat (?T * 4)"
      by (rule mult_le_mono)
    with that(2) show ?thesis by simp
  qed
  with e have "?old \<le> powLimit params
              \<and> unat (powLimit params) * nat (?T * 4) < 2 ^ 256 \<longrightarrow>
             unat bnNew = unat ?old * nat ?ts div nat ?T"
    by blast
  with c b(2) e show ?thesis by blast
qed

theorem retarget_exact_without_overflow_witness:
  "\<exists>bnNew. CalculateNextWorkRequired block3 0 net4 = Inr (GetCompact (CapToLimit net4 bnNew))
     \<and> unat bnNew = unat (0x00000000ffff0000000000000000000000000000000000000000000000000000 :: 256 word)
                      * 1800 div 2400"
proof -
  have a: "\<not> fPowNoRetargeting net4" "0 < nPowTargetTimespan net4"
    "nPowTargetTimespan net4 * 4 < 2 ^ 32"
    by (simp_all add: net4_def)
  have l: "LimitAdjustmentStep net4 (GetBlockTime block3 - 0) = 1800"
    by (simp add: LimitAdjustmentStep_def net4_def block3_def GetBlockTime_def
          signed_divide_int_def)
  have n: "nBits block3 = 0x1d00ffff" by (simp add: block3_def)
  have t: "nPowTargetTimespan net4 = 2400" by (simp add: net4_def)
  show ?thesis
    using retarget_exact_without_overflow [OF a, of block3 0]
    unfolding l n t SetCompact_limit by auto
qed

text \<open>
  C7, as stated: for every input, also with \<open>fPowNoRetargeting\<close>, the target decoded
  from the result lies within \<open>(0, powLimit]\<close>. It fails in two ways. On \<open>net4\<close>, from the
  legal previous target 1 (bits \<open>0x01010000\<close>, accepted by \<^verbatim>\<open>CheckProofOfWork\<close>) and the
  timespan 1800 of 2400, the new target is \<open>1 * 1800 / 2400 = 0\<close>. With
  \<open>fPowNoRetargeting\<close> the previous bits are returned as they are, so bits above the
  limit stay above the limit.
\<close>

theorem result_within_limit_counterexample:
  "CheckProofOfWork 1 (nBits hard3) net4
   \<and> CalculateNextWorkRequired hard3 0 net4 = Inr 0
   \<and> target (SetCompact 0) = 0
   \<and> CalculateNextWorkRequired loose3 0 (net4\<lparr>fPowNoRetargeting := True\<rparr>) = Inr 0x1e00ffff
   \<and> target (SetCompact 0x1e00ffff) > powLimit (net4\<lparr>fPowNoRetargeting := True\<rparr>)"
proof -
  have t: "target (SetCompact 0x01010000) = 1" "\<not> negative (SetCompact 0x01010000)"
    "\<not> overflow (SetCompact 0x01010000)"
    by (simp_all add: SetCompact_def Let_def)
  have a: "CheckProofOfWork 1 (nBits hard3) net4"
    by (simp add: CheckProofOfWork_def hard3_def t Let_def net4_def)
  have l: "LimitAdjustmentStep net4 (GetBlockTime hard3 - 0) = 1800"
    by (simp add: LimitAdjustmentStep_def net4_def hard3_def GetBlockTime_def
          signed_divide_int_def)
  have r: "Retarget net4 1 1800 = Inr 0"
    by (simp add: Retarget_def arith_of_int64_def multiplier_of_int64_def net4_def Let_def)
  have c: "CapToLimit net4 0 = 0" by (simp add: CapToLimit_def net4_def)
  have g: "GetCompact 0 = 0" by (simp add: GetCompact_def Let_def byte_length.simps)
  have n: "nBits hard3 = 0x01010000" "\<not> fPowNoRetargeting net4"
    by (simp_all add: hard3_def net4_def)
  have b: "CalculateNextWorkRequired hard3 0 net4 = Inr 0"
    unfolding CalculateNextWorkRequired_def
    by (simp only: n l t r c g Let_def if_False sum.case)
  have z: "target (SetCompact 0) = 0" by (simp add: SetCompact_def Let_def)
  have d: "CalculateNextWorkRequired loose3 0 (net4\<lparr>fPowNoRetargeting := True\<rparr>) = Inr 0x1e00ffff"
    by (simp add: CalculateNextWorkRequired_def loose3_def)
  have e: "target (SetCompact 0x1e00ffff) > powLimit (net4\<lparr>fPowNoRetargeting := True\<rparr>)"
    by (simp add: SetCompact_def Let_def net4_def)
  from a b z d e show ?thesis by blast
qed

text \<open>
  C7, amended: for a positive target timespan whose fourfold fits in a signed 64-bit
  value. With \<open>fPowNoRetargeting\<close> the result is the previous bits unchanged. Otherwise
  the result decodes without the negative and the overflow flag to a target that is
  never greater than \<open>powLimit\<close>; this target is not zero when \<open>powLimit\<close> is not zero,
  the fourfold of the target timespan is below \<open>2 ^ 32\<close> and the product
  \<open>old * actualTimespan\<close> is at least the target timespan and below \<open>2 ^ 256\<close>.
\<close>

theorem result_at_most_limit:
  assumes "0 < nPowTargetTimespan params" and "nPowTargetTimespan params * 4 < 2 ^ 63"
  shows "if fPowNoRetargeting params
         then CalculateNextWorkRequired pindexLast nFirstBlockTime params = Inr (nBits pindexLast)
         else (\<exists>c. CalculateNextWorkRequired pindexLast nFirstBlockTime params = Inr c
                 \<and> target (SetCompact c) \<le> powLimit params
                 \<and> \<not> negative (SetCompact c) \<and> \<not> overflow (SetCompact c)
                 \<and> (powLimit params \<noteq> 0
                    \<and> nPowTargetTimespan params * 4 < 2 ^ 32
                    \<and> nat (nPowTargetTimespan params)
                        \<le> unat (target (SetCompact (nBits pindexLast)))
                            * nat (LimitAdjustmentStep params (GetBlockTime pindexLast - nFirstBlockTime))
                    \<and> unat (target (SetCompact (nBits pindexLast)))
                          * nat (LimitAdjustmentStep params (GetBlockTime pindexLast - nFirstBlockTime))
                        < 2 ^ 256
                    \<longrightarrow> target (SetCompact c) \<noteq> 0))"
proof (cases "fPowNoRetargeting params")
  case True
  then show ?thesis by (simp add: CalculateNextWorkRequired_def)
next
  case False
  let ?T = "nPowTargetTimespan params"
  let ?ts = "LimitAdjustmentStep params (GetBlockTime pindexLast - nFirstBlockTime)"
  let ?old = "target (SetCompact (nBits pindexLast))"
  have r: "0 \<le> ?ts" "?ts \<le> ?T * 4"
    using LimitAdjustmentStep_range [OF assms] by simp_all
  have T: "?T < 2 ^ 64" using assms by simp
  obtain bnNew where b: "Retarget params ?old ?ts = Inr bnNew"
    using Retarget_returns [OF assms(1) T] by blast
  let ?capped = "CapToLimit params bnNew"
  let ?c = "GetCompact ?capped"
  have c: "CalculateNextWorkRequired pindexLast nFirstBlockTime params = Inr ?c"
    using False b by (simp add: CalculateNextWorkRequired_def Let_def)
  have cap: "?capped \<le> powLimit params" by (rule CapToLimit_le)
  have "unat (target (SetCompact ?c)) \<le> unat ?capped"
    by (simp only: SetCompact_GetCompact(1) requantized_le)
  then have "target (SetCompact ?c) \<le> ?capped" by (simp add: word_le_nat_alt)
  then have le: "target (SetCompact ?c) \<le> powLimit params" using cap by (rule order_trans)
  have fl: "\<not> negative (SetCompact ?c)" "\<not> overflow (SetCompact ?c)"
    by (simp_all only: SetCompact_GetCompact(2,3) not_False_eq_True)
  have pos: "target (SetCompact ?c) \<noteq> 0"
    if "powLimit params \<noteq> 0" "?T * 4 < 2 ^ 32"
      "nat ?T \<le> unat ?old * nat ?ts" "unat ?old * nat ?ts < 2 ^ 256"
  proof -
    have "?ts < 2 ^ 32" using r(2) that(2) by simp
    from Retarget_unat [OF assms(1) T r(1) this, of ?old] b
    have "unat bnNew = unat ?old * nat ?ts mod 2 ^ 256 div nat ?T" by simp
    then have "unat bnNew = unat ?old * nat ?ts div nat ?T" using that(4) by simp
    moreover have "0 < unat ?old * nat ?ts div nat ?T"
      using that(3) assms(1) by (simp add: div_greater_zero_iff)
    ultimately have "bnNew \<noteq> 0" by auto
    with that(1) have "?capped \<noteq> 0" by (simp add: CapToLimit_def)
    then have "unat ?capped \<noteq> 0" by (simp add: unat_eq_0)
    then have "requantized (unat ?capped) \<noteq> 0" by (rule requantized_pos)
    then have "unat (target (SetCompact ?c)) \<noteq> 0"
      using SetCompact_GetCompact(1) [of ?capped] by simp
    then show ?thesis by auto
  qed
  from c le fl pos False show ?thesis by auto
qed

theorem result_at_most_limit_witness:
  "\<exists>c. CalculateNextWorkRequired block3 0 net4 = Inr c
      \<and> target (SetCompact c) \<le> powLimit net4
      \<and> \<not> negative (SetCompact c) \<and> \<not> overflow (SetCompact c)
      \<and> target (SetCompact c) \<noteq> 0"
proof -
  have a: "0 < nPowTargetTimespan net4" "nPowTargetTimespan net4 * 4 < 2 ^ 63"
    by (simp_all add: net4_def)
  have f: "\<not> fPowNoRetargeting net4" "powLimit net4 \<noteq> 0" "nPowTargetTimespan net4 = 2400"
    by (simp_all add: net4_def)
  have l: "LimitAdjustmentStep net4 (GetBlockTime block3 - 0) = 1800"
    by (simp add: LimitAdjustmentStep_def net4_def block3_def GetBlockTime_def
          signed_divide_int_def)
  have n: "nBits block3 = 0x1d00ffff" by (simp add: block3_def)
  show ?thesis
    using result_at_most_limit [OF a, of block3 0] f
    unfolding l n SetCompact_limit by auto
qed

text \<open>
  C8, as stated: for a fixed previous target and fixed parameters, of two already clamped
  timespans the smaller one gives the smaller or equal new target. It fails where the
  product wraps: on \<open>widenet\<close>, from the previous bits \<open>0x207fffff\<close>, the timespan 302400
  gives the bits \<open>0x1e0d9ebb\<close> and the longer timespan 604800 gives the bits \<open>0x1e0d5ebb\<close>, a
  smaller target.
\<close>

theorem retarget_monotone_counterexample:
  "LimitAdjustmentStep widenet (GetBlockTime wide_tip - 907200) = 302400
   \<and> LimitAdjustmentStep widenet (GetBlockTime wide_tip - 604800) = 604800
   \<and> CalculateNextWorkRequired wide_tip 907200 widenet = Inr 0x1e0d9ebb
   \<and> CalculateNextWorkRequired wide_tip 604800 widenet = Inr 0x1e0d5ebb
   \<and> target (SetCompact 0x1e0d5ebb) < target (SetCompact 0x1e0d9ebb)"
proof -
  have l: "LimitAdjustmentStep widenet (GetBlockTime wide_tip - 907200) = 302400"
          "LimitAdjustmentStep widenet (GetBlockTime wide_tip - 604800) = 604800"
    by (simp_all add: LimitAdjustmentStep_def widenet_def wide_tip_def GetBlockTime_def
          signed_divide_int_def)
  have n: "nBits wide_tip = 0x207fffff" "\<not> fPowNoRetargeting widenet"
    by (simp_all add: wide_tip_def widenet_def)
  have s: "target (SetCompact 0x207fffff) = 0x7fffff0000000000000000000000000000000000000000000000000000000000"
    by (simp add: SetCompact_def Let_def)
  have r1: "Retarget widenet 0x7fffff0000000000000000000000000000000000000000000000000000000000 302400
              = Inr 0x00000d9ebbc99a778556334111eefccdaab889667445223000ddebbc99a77855"
    by (simp add: Retarget_def arith_of_int64_def multiplier_of_int64_def widenet_def Let_def)
  have r2: "Retarget widenet 0x7fffff0000000000000000000000000000000000000000000000000000000000 604800
              = Inr 0x00000d5ebbc99a778556334111eefccdaab889667445223000ddebbc99a77855"
    by (simp add: Retarget_def arith_of_int64_def multiplier_of_int64_def widenet_def Let_def)
  have c: "CapToLimit widenet 0x00000d9ebbc99a778556334111eefccdaab889667445223000ddebbc99a77855
             = 0x00000d9ebbc99a778556334111eefccdaab889667445223000ddebbc99a77855"
          "CapToLimit widenet 0x00000d5ebbc99a778556334111eefccdaab889667445223000ddebbc99a77855
             = 0x00000d5ebbc99a778556334111eefccdaab889667445223000ddebbc99a77855"
    by (simp_all add: CapToLimit_def widenet_def)
  have g: "GetCompact 0x00000d9ebbc99a778556334111eefccdaab889667445223000ddebbc99a77855 = 0x1e0d9ebb"
          "GetCompact 0x00000d5ebbc99a778556334111eefccdaab889667445223000ddebbc99a77855 = 0x1e0d5ebb"
    by (simp_all add: GetCompact_def Let_def byte_length.simps)
  have a: "CalculateNextWorkRequired wide_tip 907200 widenet = Inr 0x1e0d9ebb"
    unfolding CalculateNextWorkRequired_def
    by (simp only: n l s r1 c g Let_def if_False sum.case)
  have b: "CalculateNextWorkRequired wide_tip 604800 widenet = Inr 0x1e0d5ebb"
    unfolding CalculateNextWorkRequired_def
    by (simp only: n l s r2 c g Let_def if_False sum.case)
  have d: "target (SetCompact 0x1e0d5ebb) < target (SetCompact 0x1e0d9ebb)"
    by (simp add: SetCompact_def Let_def)
  from l a b d show ?thesis by blast
qed

text \<open>
  C8, amended: with retargeting enabled, a positive target timespan whose fourfold is
  below \<open>2 ^ 32\<close>, and two first-block times whose timespans are already
  clamped, the first smaller than the second: when the product of the previous target
  and the larger timespan is below \<open>2 ^ 256\<close>, the target decoded from the result for the
  smaller timespan is less than or equal to the one for the larger timespan.
\<close>

theorem retarget_monotone_without_overflow:
  assumes "\<not> fPowNoRetargeting params"
    and "0 < nPowTargetTimespan params" and "nPowTargetTimespan params * 4 < 2 ^ 32"
    and "nPowTargetTimespan params sdiv 4 \<le> GetBlockTime pindexLast - first1"
    and "GetBlockTime pindexLast - first1 < GetBlockTime pindexLast - first2"
    and "GetBlockTime pindexLast - first2 \<le> nPowTargetTimespan params * 4"
    and "unat (target (SetCompact (nBits pindexLast))) * nat (GetBlockTime pindexLast - first2)
           < 2 ^ 256"
  shows "\<exists>c1 c2. CalculateNextWorkRequired pindexLast first1 params = Inr c1
           \<and> CalculateNextWorkRequired pindexLast first2 params = Inr c2
           \<and> target (SetCompact c1) \<le> target (SetCompact c2)"
proof -
  let ?T = "nPowTargetTimespan params"
  let ?ts1 = "GetBlockTime pindexLast - first1" and ?ts2 = "GetBlockTime pindexLast - first2"
  let ?old = "target (SetCompact (nBits pindexLast))"
  have l: "LimitAdjustmentStep params ?ts1 = ?ts1" "LimitAdjustmentStep params ?ts2 = ?ts2"
    using assms(4,5,6) by (simp_all add: LimitAdjustmentStep_def Let_def)
  have w: "?T * 4 < 2 ^ 63" using assms(3) by simp
  have "0 \<le> ?ts1" "0 \<le> ?ts2"
    using LimitAdjustmentStep_range(1) [OF assms(2) w, of ?ts1]
      LimitAdjustmentStep_range(1) [OF assms(2) w, of ?ts2] by (simp_all only: l)
  then have r1: "0 \<le> ?ts1" "?ts1 < 2 ^ 32" and r2: "0 \<le> ?ts2" "?ts2 < 2 ^ 32"
    using assms(3,5,6) by simp_all
  have T: "?T < 2 ^ 64" using assms(2,3) by simp
  from Retarget_unat [OF assms(2) T r1] obtain b1 where
    b1: "Retarget params ?old ?ts1 = Inr b1"
        "unat b1 = unat ?old * nat ?ts1 mod 2 ^ 256 div nat ?T"
    by blast
  from Retarget_unat [OF assms(2) T r2] obtain b2 where
    b2: "Retarget params ?old ?ts2 = Inr b2"
        "unat b2 = unat ?old * nat ?ts2 mod 2 ^ 256 div nat ?T"
    by blast
  have c1: "CalculateNextWorkRequired pindexLast first1 params
              = Inr (GetCompact (CapToLimit params b1))"
    using assms(1) b1(1) by (simp add: CalculateNextWorkRequired_def Let_def l)
  have c2: "CalculateNextWorkRequired pindexLast first2 params
              = Inr (GetCompact (CapToLimit params b2))"
    using assms(1) b2(1) by (simp add: CalculateNextWorkRequired_def Let_def l)
  have "nat ?ts1 \<le> nat ?ts2" using assms(5) by simp
  then have p: "unat ?old * nat ?ts1 \<le> unat ?old * nat ?ts2" by (rule mult_le_mono2)
  from p assms(7) have "unat ?old * nat ?ts1 < 2 ^ 256" by (rule le_less_trans)
  with b1(2) b2(2) assms(7) have
    "unat b1 = unat ?old * nat ?ts1 div nat ?T" "unat b2 = unat ?old * nat ?ts2 div nat ?T"
    by simp_all
  with p have "unat b1 \<le> unat b2" by (simp add: div_le_mono)
  then have "b1 \<le> b2" by (simp add: word_le_nat_alt)
  then have "CapToLimit params b1 \<le> CapToLimit params b2" by (rule CapToLimit_mono)
  then have "unat (CapToLimit params b1) \<le> unat (CapToLimit params b2)"
    by (simp add: word_le_nat_alt)
  then have "requantized (unat (CapToLimit params b1)) \<le> requantized (unat (CapToLimit params b2))"
    by (rule requantized_mono)
  then have "target (SetCompact (GetCompact (CapToLimit params b1)))
               \<le> target (SetCompact (GetCompact (CapToLimit params b2)))"
    by (simp add: word_le_nat_alt SetCompact_GetCompact(1))
  with c1 c2 show ?thesis by blast
qed

theorem retarget_monotone_without_overflow_witness:
  "\<exists>c1 c2. CalculateNextWorkRequired block3 1000 net4 = Inr c1
           \<and> CalculateNextWorkRequired block3 0 net4 = Inr c2
           \<and> target (SetCompact c1) \<le> target (SetCompact c2)"
proof (rule retarget_monotone_without_overflow)
  show "\<not> fPowNoRetargeting net4" "0 < nPowTargetTimespan net4"
    "nPowTargetTimespan net4 * 4 < 2 ^ 32"
    by (simp_all add: net4_def)
  show "nPowTargetTimespan net4 sdiv 4 \<le> GetBlockTime block3 - 1000"
    "GetBlockTime block3 - 1000 < GetBlockTime block3 - 0"
    "GetBlockTime block3 - 0 \<le> nPowTargetTimespan net4 * 4"
    by (simp_all add: net4_def block3_def GetBlockTime_def signed_divide_int_def)
  have "nBits block3 = 0x1d00ffff" "GetBlockTime block3 - 0 = 1800"
    by (simp_all add: block3_def GetBlockTime_def)
  then show "unat (target (SetCompact (nBits block3))) * nat (GetBlockTime block3 - 0) < 2 ^ 256"
    by (simp add: SetCompact_limit)
qed

text \<open>
  C9, as stated: every target \<open>t \<le> powLimit\<close> that the retarget computation produces is
  decoded from its encoding exactly. It fails for a target with more than three
  significant bytes: on \<open>net4\<close>, from \<open>block3\<close> and the timespan 1800, the capped new target
  is \<open>0xbfff40 * 2 ^ 200\<close>, its encoding is \<open>0x1d00bfff\<close> and decodes to \<open>0xbfff * 2 ^ 208\<close>.
\<close>

theorem round_trip_exact_counterexample:
  "Retarget net4 (target (SetCompact (nBits block3)))
       (LimitAdjustmentStep net4 (GetBlockTime block3 - 0))
     = Inr 0x00000000bfff4000000000000000000000000000000000000000000000000000
   \<and> CapToLimit net4 0x00000000bfff4000000000000000000000000000000000000000000000000000
     = 0x00000000bfff4000000000000000000000000000000000000000000000000000
   \<and> (0x00000000bfff4000000000000000000000000000000000000000000000000000 :: 256 word)
       \<le> powLimit net4
   \<and> target (SetCompact (GetCompact
         0x00000000bfff4000000000000000000000000000000000000000000000000000))
     = 0x00000000bfff0000000000000000000000000000000000000000000000000000
   \<and> target (SetCompact (GetCompact
         0x00000000bfff4000000000000000000000000000000000000000000000000000))
     \<noteq> 0x00000000bfff4000000000000000000000000000000000000000000000000000"
proof -
  have n: "nBits block3 = 0x1d00ffff" by (simp add: block3_def)
  have l: "LimitAdjustmentStep net4 (GetBlockTime block3 - 0) = 1800"
    by (simp add: LimitAdjustmentStep_def net4_def block3_def GetBlockTime_def
          signed_divide_int_def)
  have c: "CapToLimit net4 0x00000000bfff4000000000000000000000000000000000000000000000000000
     = 0x00000000bfff4000000000000000000000000000000000000000000000000000"
    by (simp add: CapToLimit_def net4_def)
  have p: "(0x00000000bfff4000000000000000000000000000000000000000000000000000 :: 256 word)
       \<le> powLimit net4"
    by (simp add: net4_def)
  have d: "target (SetCompact 0x1d00bfff)
     = 0x00000000bfff0000000000000000000000000000000000000000000000000000"
    by (simp add: SetCompact_def Let_def)
  show ?thesis
    unfolding n l SetCompact_limit Retarget_net4_1800 GetCompact_bfff4 d
    using c p by simp
qed

text \<open>
  C9, amended: with retargeting enabled and a positive target timespan whose fourfold
  fits in a signed 64-bit value, \<^verbatim>\<open>CalculateNextWorkRequired\<close> returns the encoding \<open>c\<close> of
  the capped target \<open>t\<close> of its steps 5 and 6: the product of the previous target and the
  multiplier, divided by the target timespan and capped by \<open>powLimit\<close>. Decoding \<open>c\<close>
  raises neither the overflow nor the negative flag and yields \<open>t\<close> with the bytes below
  its mantissa cleared: a target that is at most \<open>t\<close>, and exactly \<open>t\<close> if and only if
  those bytes of \<open>t\<close> are zero. Encoding the decoded target gives \<open>c\<close> again: there is no
  drift from decoding and re-encoding.
\<close>

theorem round_trip_no_drift:
  assumes "\<not> fPowNoRetargeting params"
    and "0 < nPowTargetTimespan params" and "nPowTargetTimespan params * 4 < 2 ^ 63"
  shows "\<exists>t c.
           t = CapToLimit params
                 (target (SetCompact (nBits pindexLast))
                    * multiplier_of_int64
                        (LimitAdjustmentStep params (GetBlockTime pindexLast - nFirstBlockTime))
                    div arith_of_int64 (nPowTargetTimespan params))
           \<and> c = GetCompact t
           \<and> CalculateNextWorkRequired pindexLast nFirstBlockTime params = Inr c
           \<and> t \<le> powLimit params
           \<and> \<not> overflow (SetCompact c) \<and> \<not> negative (SetCompact c)
           \<and> target (SetCompact c) \<le> t
           \<and> unat (target (SetCompact c))
               = unat t div 256 ^ (compact_size (unat t) - 3) * 256 ^ (compact_size (unat t) - 3)
           \<and> (target (SetCompact c) = t) = (256 ^ (compact_size (unat t) - 3) dvd unat t)
           \<and> GetCompact (target (SetCompact c)) = c"
proof -
  let ?T = "nPowTargetTimespan params"
  let ?ts = "LimitAdjustmentStep params (GetBlockTime pindexLast - nFirstBlockTime)"
  let ?old = "target (SetCompact (nBits pindexLast))"
  let ?t = "CapToLimit params (?old * multiplier_of_int64 ?ts div arith_of_int64 ?T)"
  let ?c = "GetCompact ?t"
  let ?P = "256 ^ (compact_size (unat ?t) - 3) :: nat"
  have T: "?T < 2 ^ 64" using assms(2,3) by simp
  have c: "CalculateNextWorkRequired pindexLast nFirstBlockTime params = Inr ?c"
    using assms(1) by (simp add: CalculateNextWorkRequired_def Let_def
          Retarget_returns [OF assms(2) T])
  have cap: "?t \<le> powLimit params" by (rule CapToLimit_le)
  have fl: "\<not> overflow (SetCompact ?c)" "\<not> negative (SetCompact ?c)"
    by (simp_all only: SetCompact_GetCompact(2,3) not_False_eq_True)
  have u: "unat (target (SetCompact ?c)) = unat ?t div ?P * ?P"
    by (simp only: SetCompact_GetCompact(1) requantized_def)
  have le: "target (SetCompact ?c) \<le> ?t"
    unfolding word_le_nat_alt u by (rule div_times_less_eq_dividend)
  have "(target (SetCompact ?c) = ?t) = (unat ?t div ?P * ?P = unat ?t)"
    by (simp only: word_unat_eq_iff u)
  also have "\<dots> = (?P dvd unat ?t)"
    by (metis dvd_div_mult_self dvd_triv_right)
  finally have ex: "(target (SetCompact ?c) = ?t) = (?P dvd unat ?t)" .
  have id: "GetCompact (target (SetCompact ?c)) = ?c" by (rule GetCompact_idempotent)
  from c cap fl le u ex id show ?thesis by blast
qed

theorem round_trip_no_drift_witness:
  "CalculateNextWorkRequired block3 0 net4 = Inr 0x1d00bfff
   \<and> \<not> overflow (SetCompact 0x1d00bfff) \<and> \<not> negative (SetCompact 0x1d00bfff)
   \<and> target (SetCompact 0x1d00bfff)
       \<le> 0x00000000bfff4000000000000000000000000000000000000000000000000000
   \<and> target (SetCompact 0x1d00bfff)
       \<noteq> 0x00000000bfff4000000000000000000000000000000000000000000000000000
   \<and> GetCompact (target (SetCompact 0x1d00bfff)) = 0x1d00bfff"
proof -
  have a: "\<not> fPowNoRetargeting net4" "0 < nPowTargetTimespan net4"
    "nPowTargetTimespan net4 * 4 < 2 ^ 63"
    by (simp_all add: net4_def)
  have l: "LimitAdjustmentStep net4 (GetBlockTime block3 - 0) = 1800"
    by (simp add: LimitAdjustmentStep_def net4_def block3_def GetBlockTime_def
          signed_divide_int_def)
  have n: "nBits block3 = 0x1d00ffff" by (simp add: block3_def)
  have q: "(0x00000000ffff0000000000000000000000000000000000000000000000000000 :: 256 word)
             * multiplier_of_int64 1800 div arith_of_int64 (nPowTargetTimespan net4)
           = 0x00000000bfff4000000000000000000000000000000000000000000000000000"
    by (simp add: multiplier_of_int64_def arith_of_int64_def net4_def)
  have c: "CapToLimit net4 0x00000000bfff4000000000000000000000000000000000000000000000000000
     = 0x00000000bfff4000000000000000000000000000000000000000000000000000"
    by (simp add: CapToLimit_def net4_def)
  have d: "target (SetCompact 0x1d00bfff)
     \<noteq> 0x00000000bfff4000000000000000000000000000000000000000000000000000"
    by (simp add: SetCompact_def Let_def)
  from round_trip_no_drift [OF a, of block3 0]
  have "\<exists>t c. t = 0x00000000bfff4000000000000000000000000000000000000000000000000000
           \<and> c = GetCompact t
           \<and> CalculateNextWorkRequired block3 0 net4 = Inr c
           \<and> t \<le> powLimit net4
           \<and> \<not> overflow (SetCompact c) \<and> \<not> negative (SetCompact c)
           \<and> target (SetCompact c) \<le> t
           \<and> unat (target (SetCompact c))
               = unat t div 256 ^ (compact_size (unat t) - 3) * 256 ^ (compact_size (unat t) - 3)
           \<and> (target (SetCompact c) = t) = (256 ^ (compact_size (unat t) - 3) dvd unat t)
           \<and> GetCompact (target (SetCompact c)) = c"
    unfolding l n SetCompact_limit q c .
  then show ?thesis using d by (auto simp add: GetCompact_bfff4)
qed

end
